theory Spec2Isabelle
  imports Main "HOL-Library.Sublist"
begin

section \<open>Python values\<close>

text \<open>
  The values that travel through the program: spreadsheet cells, payload entries, query
  arguments and the decoded results of a query. An absent cell (pandas NaN) and Python's
  \<^verbatim>\<open>None\<close> are both \<open>PNone\<close>; text is \<open>PStr\<close>; an integer (also a numpy int64 holding a
  row id) is \<open>PInt\<close>.
\<close>

datatype pyval = PNone | PInt int | PStr string

fun is_str :: "pyval \<Rightarrow> bool" where
  "is_str (PStr s) = True"
| "is_str v = False"

abbreviation apos :: char where
  "apos \<equiv> CHR 0x27"

subsection \<open>String helpers of the Python runtime\<close>

text \<open>
  \<^verbatim>\<open>str.isspace\<close> on one character, for the code points below 256 that a \<open>char\<close> holds:
  tab to carriage return, the four separators 0x1C to 0x1F, the space, NEL and the
  no-break space.
\<close>

definition isspace :: "char \<Rightarrow> bool" where
  "isspace c = (let n = (of_char c :: nat) in
     (9 \<le> n \<and> n \<le> 13) \<or> (28 \<le> n \<and> n \<le> 32) \<or> n = 133 \<or> n = 160)"

text \<open>\<^verbatim>\<open>str.strip()\<close>: drop leading and trailing whitespace.\<close>

definition strip :: "string \<Rightarrow> string" where
  "strip s = rev (dropWhile isspace (rev (dropWhile isspace s)))"

text \<open>
  \<^verbatim>\<open>s.replace(old, new)\<close>: scan from the left, replace every non-overlapping occurrence.
  With an empty \<open>old\<close> Python puts \<open>new\<close> before every character and at the end.
\<close>

function str_replace :: "string \<Rightarrow> string \<Rightarrow> string \<Rightarrow> string" where
  "str_replace [] new s = new @ concat (map (\<lambda>c. c # new) s)"
| "str_replace (a # old) new [] = []"
| "str_replace (a # old) new (c # s) =
     (if prefix (a # old) (c # s)
      then new @ str_replace (a # old) new (drop (length old) s)
      else c # str_replace (a # old) new s)"
  by pat_completeness auto
termination
  by (relation "measure (\<lambda>(old, new, s). length s)") auto

text \<open>\<^verbatim>\<open>sep.join(xs)\<close>.\<close>

fun join :: "string \<Rightarrow> string list \<Rightarrow> string" where
  "join sep [] = []"
| "join sep [x] = x"
| "join sep (x # y # xs) = x @ sep @ join sep (y # xs)"

text \<open>\<^verbatim>\<open>str(n)\<close> for an integer: decimal digits, a minus sign when negative.\<close>

definition digit_char :: "nat \<Rightarrow> char" where
  "digit_char d = char_of (48 + d)"

fun show_nat :: "nat \<Rightarrow> string" where
  "show_nat n = (if n < 10 then [digit_char n] else show_nat (n div 10) @ [digit_char (n mod 10)])"

declare show_nat.simps [simp del]

definition show_int :: "int \<Rightarrow> string" where
  "show_int i = (if i < 0 then CHR ''-'' # show_nat (nat (- i)) else show_nat (nat i))"

text \<open>\<^verbatim>\<open>str(v)\<close> and the \<^verbatim>\<open>%s\<close> and f-string rendering of a value.\<close>

fun py_str :: "pyval \<Rightarrow> string" where
  "py_str PNone = ''None''"
| "py_str (PInt i) = show_int i"
| "py_str (PStr s) = s"

section \<open>utils.py: the value codec\<close>

fun preprocess_value :: "pyval \<Rightarrow> pyval" where
  "preprocess_value (PStr s) = PStr (strip (str_replace [apos] [apos, apos] s))"
| "preprocess_value v = v"

fun postprocess_value :: "pyval \<Rightarrow> pyval" where
  "postprocess_value (PStr s) = PStr (str_replace [apos, apos] [apos] s)"
| "postprocess_value v = v"

text \<open>The spec's side condition: the text holds two apostrophes in a row somewhere.\<close>

fun has_doubled_apostrophe :: "string \<Rightarrow> bool" where
  "has_doubled_apostrophe (a # b # s) = ((a = apos \<and> b = apos) \<or> has_doubled_apostrophe (b # s))"
| "has_doubled_apostrophe s = False"

section \<open>Python exceptions\<close>

text \<open>
  Every \<^verbatim>\<open>raise\<close> of the program and every error of the sqlite3 module is a value; the
  argument is the message that \<^verbatim>\<open>str(e)\<close> gives.
\<close>

datatype py_error =
    ValueError string
  | RuntimeError string
  | IntegrityError string
  | OperationalError string
  | IndexError string
  | KeyError string
  | TypeError string

fun message :: "py_error \<Rightarrow> string" where
  "message (ValueError m) = m"
| "message (RuntimeError m) = m"
| "message (IntegrityError m) = m"
| "message (OperationalError m) = m"
| "message (IndexError m) = m"
| "message (KeyError k) = [apos] @ k @ [apos]"
| "message (TypeError m) = m"

text \<open>A Python dict with text keys: pairs in insertion order, assignment overwrites in place.\<close>

type_synonym pydict = "(string \<times> pyval) list"

fun dict_set :: "(string \<times> 'v) list \<Rightarrow> string \<Rightarrow> 'v \<Rightarrow> (string \<times> 'v) list" where
  "dict_set [] k v = [(k, v)]"
| "dict_set ((k', v') # d) k v = (if k' = k then (k, v) # d else (k', v') # dict_set d k v)"

definition dict_get :: "(string \<times> 'v) list \<Rightarrow> string \<Rightarrow> py_error + 'v" where
  "dict_get d k = (case map_of d k of None \<Rightarrow> Inl (KeyError k) | Some v \<Rightarrow> Inr v)"

section \<open>The store engine\<close>

text \<open>
  \<^verbatim>\<open>db_table\<close> hands SQL text to the sqlite3 module, which is not part of the repository.
  The engine below gives the statements of \<^verbatim>\<open>db_table\<close> the meaning SQLite gives them:
  the three tables of \<^verbatim>\<open>models.py\<close>, the value a literal denotes, column affinity, row
  ids, uniqueness, and foreign keys, which SQLite checks only on a connection where
  \<^verbatim>\<open>PRAGMA foreign_keys = ON\<close> was issued. Values are NULL, integers and text; integers are
  unbounded. Each \<^verbatim>\<open>db_table\<close> function builds the text as the source does and passes it
  on together with its parts.
\<close>

datatype sqlval = SNull | SInt int | SText string

datatype affinity = AInteger | AText

definition is_digit :: "char \<Rightarrow> bool" where
  "is_digit c = (let n = (of_char c :: nat) in 48 \<le> n \<and> n \<le> 57)"

definition digits_value :: "string \<Rightarrow> nat" where
  "digits_value ds = foldl (\<lambda>a c. 10 * a + (of_char c - 48)) 0 ds"

text \<open>The integer a text denotes, when it is an optional minus sign and decimal digits.\<close>

definition int_of_text :: "string \<Rightarrow> int option" where
  "int_of_text s = (case s of
       [] \<Rightarrow> None
     | c # ds \<Rightarrow>
         if c = CHR ''-''
         then (if ds \<noteq> [] \<and> list_all is_digit ds then Some (- int (digits_value ds)) else None)
         else (if list_all is_digit s then Some (int (digits_value s)) else None))"

text \<open>
  Column affinity: text that reads as an integer is stored as that integer in an INTEGER
  column and stays text otherwise; an integer becomes its decimal text in a text column.
\<close>

fun apply_affinity :: "affinity \<Rightarrow> sqlval \<Rightarrow> sqlval" where
  "apply_affinity AInteger (SText s) = (case int_of_text s of Some i \<Rightarrow> SInt i | None \<Rightarrow> SText s)"
| "apply_affinity AText (SInt i) = SText (show_int i)"
| "apply_affinity a v = v"

text \<open>
  The body of a string literal after its opening apostrophe: two apostrophes stand for one,
  a single one closes the literal and must be the last character.
\<close>

fun sql_unquote :: "string \<Rightarrow> string option" where
  "sql_unquote [] = None"
| "sql_unquote [c] = (if c = apos then Some [] else None)"
| "sql_unquote (c # d # s) =
     (if c = apos then (if d = apos then map_option ((#) apos) (sql_unquote s) else None)
      else map_option ((#) c) (sql_unquote (d # s)))"

definition sql_literal :: "string \<Rightarrow> sqlval option" where
  "sql_literal e = (case e of
       [] \<Rightarrow> None
     | c # s \<Rightarrow> if c = apos then map_option SText (sql_unquote s) else map_option SInt (int_of_text e))"

record table_info =
  col_affinity :: "(string \<times> affinity) list"
  rowid_alias :: "string option"
  autoincrement :: bool
  unique_keys :: "string list list"
  foreign_keys :: "(string \<times> string \<times> string) list"

text \<open>
  What the engine records for the CREATE TABLE statements of \<^verbatim>\<open>models.py\<close>: VARCHAR and TEXT
  columns have text affinity, INTEGER columns integer affinity; an INTEGER PRIMARY KEY
  column is the row id; UNIQUE and a table-level PRIMARY KEY are uniqueness keys.
\<close>

definition sessions_info :: table_info where
  "sessions_info =
     \<lparr>col_affinity = [(''id'', AInteger), (''date'', AText), (''time_start'', AText),
        (''time_end'', AText), (''title'', AText), (''location'', AText),
        (''description'', AText), (''supersession_id'', AInteger)],
      rowid_alias = Some ''id'', autoincrement = True, unique_keys = [],
      foreign_keys = [(''supersession_id'', ''sessions'', ''id'')]\<rparr>"

definition speakers_info :: table_info where
  "speakers_info =
     \<lparr>col_affinity = [(''id'', AInteger), (''name'', AText)],
      rowid_alias = Some ''id'', autoincrement = True, unique_keys = [[''name'']],
      foreign_keys = []\<rparr>"

definition sessions_speakers_info :: table_info where
  "sessions_speakers_info =
     \<lparr>col_affinity = [(''session_id'', AInteger), (''speaker_id'', AInteger)],
      rowid_alias = None, autoincrement = False,
      unique_keys = [[''session_id'', ''speaker_id'']],
      foreign_keys = [(''session_id'', ''sessions'', ''id''), (''speaker_id'', ''speakers'', ''id'')]\<rparr>"

definition catalog :: "string \<Rightarrow> table_info option" where
  "catalog t =
     (if t = ''sessions'' then Some sessions_info
      else if t = ''speakers'' then Some speakers_info
      else if t = ''sessions_speakers'' then Some sessions_speakers_info
      else None)"

type_synonym cells = "(string \<times> sqlval) list"

text \<open>
  The store file: for each table its rows in the order a scan visits them, each with its
  row id; the AUTOINCREMENT high-water mark of each table; and the statements executed so far.
  A table that was never created has no rows.
\<close>

record store =
  table_rows :: "string \<Rightarrow> (int \<times> cells) list"
  sequence :: "string \<Rightarrow> int"
  statements :: "string list"

text \<open>A connection, as \<^verbatim>\<open>sqlite3.connect\<close> returns it: foreign keys are not enforced.\<close>

record connection =
  foreign_keys_pragma :: bool

definition sqlite3_connect :: connection where
  "sqlite3_connect = \<lparr>foreign_keys_pragma = False\<rparr>"

definition cell :: "cells \<Rightarrow> string \<Rightarrow> sqlval" where
  "cell r c = (case map_of r c of None \<Rightarrow> SNull | Some v \<Rightarrow> v)"

definition max_rowid :: "(int \<times> cells) list \<Rightarrow> int" where
  "max_rowid rs = (case rs of [] \<Rightarrow> 0 | r # rs' \<Rightarrow> fold (\<lambda>x m. max (fst x) m) rs' (fst r))"

definition new_rowid :: "table_info \<Rightarrow> store \<Rightarrow> string \<Rightarrow> int" where
  "new_rowid info st t =
     (if autoincrement info then max (max_rowid (table_rows st t)) (sequence st t) + 1
      else max_rowid (table_rows st t) + 1)"

text \<open>
  The columns of a stored row as a query sees them. An INTEGER PRIMARY KEY column is the
  row id itself, whatever the stored cells say.
\<close>

definition row_view :: "string \<Rightarrow> int \<times> cells \<Rightarrow> cells" where
  "row_view t r =
     (case catalog t of
        None \<Rightarrow> snd r
      | Some info \<Rightarrow>
         (case rowid_alias info of
            None \<Rightarrow> snd r
          | Some c \<Rightarrow> (c, SInt (fst r)) # filter (\<lambda>kv. fst kv \<noteq> c) (snd r)))"

text \<open>A uniqueness key is violated by an equal row; a NULL in the key never collides.\<close>

definition violates_key :: "string \<Rightarrow> (int \<times> cells) list \<Rightarrow> int \<times> cells \<Rightarrow> string list \<Rightarrow> bool" where
  "violates_key t rs new key =
     (list_all (\<lambda>c. cell (row_view t new) c \<noteq> SNull) key
      \<and> list_ex (\<lambda>r. list_all (\<lambda>c. cell (row_view t r) c = cell (row_view t new) c) key) rs)"

definition foreign_key_ok :: "store \<Rightarrow> string \<Rightarrow> int \<times> cells \<Rightarrow> string \<times> string \<times> string \<Rightarrow> bool" where
  "foreign_key_ok st t new fk =
     (case fk of (c, pt, pc) \<Rightarrow>
        cell (row_view t new) c = SNull
        \<or> list_ex (\<lambda>r. cell (row_view pt r) pc = cell (row_view t new) c)
             (table_rows st pt @ (if pt = t then [new] else [])))"

definition logged :: "store \<Rightarrow> string \<Rightarrow> store" where
  "logged st text = st\<lparr>statements := statements st @ [text]\<rparr>"

text \<open>
  Storing a row whose cells are given for every column of the table: the row id is the
  value given for the INTEGER PRIMARY KEY column, or a fresh one when that is NULL or the
  table has no such column. The row goes where its row id puts it, which for a fresh id
  is the end.
\<close>

definition insert_row ::
  "connection \<Rightarrow> store \<Rightarrow> string \<Rightarrow> table_info \<Rightarrow> cells \<Rightarrow> store \<times> (py_error + int)" where
  "insert_row conn st t info given =
     (let rs = table_rows st t;
          chosen = (case rowid_alias info of
                      None \<Rightarrow> Inr (new_rowid info st t)
                    | Some c \<Rightarrow> (case cell given c of
                          SNull \<Rightarrow> Inr (new_rowid info st t)
                        | SInt i \<Rightarrow> Inr i
                        | SText s \<Rightarrow> Inl (IntegrityError ''datatype mismatch'')))
      in case chosen of
           Inl e \<Rightarrow> (st, Inl e)
         | Inr rowid \<Rightarrow>
            if rowid \<in> set (map fst rs)
            then (st, Inl (IntegrityError (''UNIQUE constraint failed: '' @ t @ ''.''
                     @ (case rowid_alias info of None \<Rightarrow> ''rowid'' | Some c \<Rightarrow> c))))
            else (case filter (violates_key t rs (rowid, given)) (unique_keys info) of
                    key # ks \<Rightarrow> (st, Inl (IntegrityError (''UNIQUE constraint failed: ''
                                   @ join '', '' (map (\<lambda>c. t @ ''.'' @ c) key))))
                  | [] \<Rightarrow>
                     if foreign_keys_pragma conn
                        \<and> \<not> list_all (foreign_key_ok st t (rowid, given)) (foreign_keys info)
                     then (st, Inl (IntegrityError ''FOREIGN KEY constraint failed''))
                     else (st\<lparr>table_rows := (table_rows st)(t := insort_key fst (rowid, given) rs),
                              sequence := (if autoincrement info
                                 then (sequence st)(t := max (sequence st t) rowid)
                                 else sequence st)\<rparr>,
                           Inr rowid)))"

text \<open>
  \<^verbatim>\<open>INSERT INTO t (c1, ...) VALUES (e1, ...)\<close>: \<open>assigns\<close> pairs each column with the text of
  its value expression. An empty column list is a syntax error. A column that is not
  assigned is NULL.
\<close>

definition sql_insert ::
  "connection \<Rightarrow> store \<Rightarrow> string \<Rightarrow> (string \<times> string) list \<Rightarrow> store \<times> (py_error + int)" where
  "sql_insert conn st t assigns =
     (case catalog t of
        None \<Rightarrow> (st, Inl (OperationalError (''no such table: '' @ t)))
      | Some info \<Rightarrow>
         if assigns = [] then (st, Inl (OperationalError (''near '' @ [CHR 0x22, CHR '')'', CHR 0x22] @ '': syntax error'')))
         else (case filter (\<lambda>c. c \<notin> set (map fst (col_affinity info))) (map fst assigns) of
            c # cs \<Rightarrow> (st, Inl (OperationalError (''table '' @ t @ '' has no column named '' @ c)))
          | [] \<Rightarrow>
             (case those (map (\<lambda>a. sql_literal (snd a)) assigns) of
                None \<Rightarrow> (st, Inl (OperationalError ''syntax error''))
              | Some vals \<Rightarrow>
                 insert_row conn st t info
                   (map (\<lambda>(c, a). (c, case map_of (zip (map fst assigns) vals) c of
                                          None \<Rightarrow> SNull
                                        | Some v \<Rightarrow> apply_affinity a v))
                        (col_affinity info)))))"

text \<open>
  A SELECT over one table and a chain of inner joins. A row of the join maps qualified
  columns to values. A column reference without a table must name a column of exactly one
  table in scope. The rows of a join come in the order of nested loops over the tables as
  the statement lists them.
\<close>

datatype colref = Col string | QCol string string

datatype cond = CEq colref string | CIn colref "string list" | CNotIn colref "string list"

type_synonym joined = "((string \<times> string) \<times> sqlval) list"

definition scan :: "store \<Rightarrow> string \<Rightarrow> joined list" where
  "scan st t = map (\<lambda>r. map (\<lambda>(c, v). ((t, c), v)) (row_view t r)) (table_rows st t)"

definition jcell :: "joined \<Rightarrow> string \<times> string \<Rightarrow> sqlval" where
  "jcell e q = (case map_of e q of None \<Rightarrow> SNull | Some v \<Rightarrow> v)"

definition column_affinity :: "string \<Rightarrow> string \<Rightarrow> affinity option" where
  "column_affinity t c = (case catalog t of None \<Rightarrow> None | Some info \<Rightarrow> map_of (col_affinity info) c)"

fun resolve :: "string list \<Rightarrow> colref \<Rightarrow> py_error + (string \<times> string)" where
  "resolve scope (QCol t c) =
     (if t \<in> set scope \<and> column_affinity t c \<noteq> None then Inr (t, c)
      else Inl (OperationalError (''no such column: '' @ t @ ''.'' @ c)))"
| "resolve scope (Col c) =
     (case filter (\<lambda>t. column_affinity t c \<noteq> None) scope of
        [] \<Rightarrow> Inl (OperationalError (''no such column: '' @ c))
      | [t] \<Rightarrow> Inr (t, c)
      | t # t' # ts \<Rightarrow> Inl (OperationalError (''ambiguous column name: '' @ c)))"

fun sum_map :: "('a \<Rightarrow> 'e + 'b) \<Rightarrow> 'a list \<Rightarrow> 'e + 'b list" where
  "sum_map f [] = Inr []"
| "sum_map f (x # xs) =
     (case f x of
        Inl e \<Rightarrow> Inl e
      | Inr y \<Rightarrow> (case sum_map f xs of Inl e \<Rightarrow> Inl e | Inr ys \<Rightarrow> Inr (y # ys)))"

text \<open>Equality of SQL: a comparison with NULL is never true.\<close>

definition sql_equal :: "sqlval \<Rightarrow> sqlval \<Rightarrow> bool" where
  "sql_equal a b = (a \<noteq> SNull \<and> b \<noteq> SNull \<and> a = b)"

fun sql_joins ::
  "store \<Rightarrow> string list \<Rightarrow> joined list \<Rightarrow> (string \<times> string \<times> string \<times> string) list
     \<Rightarrow> py_error + (string list \<times> joined list)" where
  "sql_joins st scope envs [] = Inr (scope, envs)"
| "sql_joins st scope envs ((t1, t2, c1, c2) # js) =
     (if catalog t2 = None then Inl (OperationalError (''no such table: '' @ t2))
      else (case resolve (scope @ [t2]) (QCol t1 c1) of
              Inl e \<Rightarrow> Inl e
            | Inr l \<Rightarrow>
               (case resolve (scope @ [t2]) (QCol t2 c2) of
                  Inl e \<Rightarrow> Inl e
                | Inr r \<Rightarrow>
                   sql_joins st (scope @ [t2])
                     (concat (map (\<lambda>e. filter (\<lambda>e'. sql_equal (jcell e' l) (jcell e' r))
                                          (map (\<lambda>e2. e @ e2) (scan st t2))) envs))
                     js)))"

text \<open>
  A condition with its column resolved and its literals evaluated; the affinity of the
  column is applied to each literal before the comparison.
\<close>

datatype rcond =
    REq "string \<times> string" sqlval
  | RIn "string \<times> string" "sqlval list"
  | RNotIn "string \<times> string" "sqlval list"

definition literal_for :: "string \<times> string \<Rightarrow> string \<Rightarrow> py_error + sqlval" where
  "literal_for q e =
     (case sql_literal e of
        None \<Rightarrow> Inl (OperationalError (''no such column: '' @ e))
      | Some v \<Rightarrow> (case column_affinity (fst q) (snd q) of
                     None \<Rightarrow> Inr v
                   | Some a \<Rightarrow> Inr (apply_affinity a v)))"

fun compile_cond :: "string list \<Rightarrow> cond \<Rightarrow> py_error + rcond" where
  "compile_cond scope (CEq c e) =
     (case resolve scope c of
        Inl err \<Rightarrow> Inl err
      | Inr q \<Rightarrow> (case literal_for q e of Inl err \<Rightarrow> Inl err | Inr v \<Rightarrow> Inr (REq q v)))"
| "compile_cond scope (CIn c es) =
     (case resolve scope c of
        Inl err \<Rightarrow> Inl err
      | Inr q \<Rightarrow> (case sum_map (literal_for q) es of Inl err \<Rightarrow> Inl err | Inr vs \<Rightarrow> Inr (RIn q vs)))"
| "compile_cond scope (CNotIn c es) =
     (case resolve scope c of
        Inl err \<Rightarrow> Inl err
      | Inr q \<Rightarrow> (case sum_map (literal_for q) es of Inl err \<Rightarrow> Inl err | Inr vs \<Rightarrow> Inr (RNotIn q vs)))"

fun eval_cond :: "joined \<Rightarrow> rcond \<Rightarrow> bool" where
  "eval_cond e (REq q v) = sql_equal (jcell e q) v"
| "eval_cond e (RIn q vs) = (jcell e q \<noteq> SNull \<and> jcell e q \<in> set vs)"
| "eval_cond e (RNotIn q vs) = (vs = [] \<or> (jcell e q \<noteq> SNull \<and> jcell e q \<notin> set vs))"

text \<open>
  \<^verbatim>\<open>SELECT cols FROM t JOIN ... WHERE c1 AND c2 ...\<close>: the rows of \<open>t\<close> in stored order, each
  extended through the joins in order, filtered by all conditions.
\<close>

definition sql_select ::
  "store \<Rightarrow> string \<Rightarrow> colref list \<Rightarrow> (string \<times> string \<times> string \<times> string) list \<Rightarrow> cond list
     \<Rightarrow> py_error + sqlval list list" where
  "sql_select st t cols joins conds =
     (if catalog t = None then Inl (OperationalError (''no such table: '' @ t))
      else if cols = [] then Inl (OperationalError ''syntax error'')
      else (case sql_joins st [t] (scan st t) joins of
              Inl e \<Rightarrow> Inl e
            | Inr (scope, envs) \<Rightarrow>
               (case sum_map (resolve scope) cols of
                  Inl e \<Rightarrow> Inl e
                | Inr qs \<Rightarrow>
                   (case sum_map (compile_cond scope) conds of
                      Inl e \<Rightarrow> Inl e
                    | Inr rcs \<Rightarrow>
                       Inr (map (\<lambda>e. map (jcell e) qs)
                              (filter (\<lambda>e. list_all (eval_cond e) rcs) envs))))))"

section \<open>models.py: the schemas\<close>

record schema =
  schema_columns :: "(string \<times> string) list"
  schema_constraints :: "string list"

definition sessions_schema :: schema where
  "sessions_schema =
     \<lparr>schema_columns =
        [(''id'', ''INTEGER PRIMARY KEY AUTOINCREMENT''),
         (''date'', ''VARCHAR(10)''),
         (''time_start'', ''VARCHAR(8)''),
         (''time_end'', ''VARCHAR(8)''),
         (''title'', ''VARCHAR(255)''),
         (''location'', ''VARCHAR(255)''),
         (''description'', ''TEXT''),
         (''supersession_id'', ''INTEGER'')],
      schema_constraints = [''FOREIGN KEY (supersession_id) REFERENCES sessions(id)'']\<rparr>"

definition sessions_speakers_schema :: schema where
  "sessions_speakers_schema =
     \<lparr>schema_columns = [(''session_id'', ''INTEGER''), (''speaker_id'', ''INTEGER'')],
      schema_constraints =
        [''PRIMARY KEY (session_id, speaker_id)'',
         ''FOREIGN KEY (session_id) REFERENCES sessions(id)'',
         ''FOREIGN KEY (speaker_id) REFERENCES speakers(id)'']\<rparr>"

definition speakers_schema :: schema where
  "speakers_schema =
     \<lparr>schema_columns =
        [(''id'', ''INTEGER PRIMARY KEY AUTOINCREMENT''), (''name'', ''VARCHAR(255) UNIQUE'')],
      schema_constraints = []\<rparr>"

section \<open>db\_table.py: the table handle\<close>

record db_table =
  tbl_name :: string
  tbl_columns :: "(string \<times> string) list"
  tbl_constraints :: "string list"
  db_conn :: connection

text \<open>
  \<^verbatim>\<open>create_table\<close>: the statement is built from the handle's columns and constraints and
  executed. The engine creates the table when it is absent and changes nothing otherwise;
  an absent table has no rows, so the stored rows are the same before and after.
\<close>

definition create_table :: "db_table \<Rightarrow> store \<Rightarrow> store" where
  "create_table self st =
     (let columns_query_string =
            join '', '' (map (\<lambda>(k, v). k @ '' '' @ v) (tbl_columns self) @ tbl_constraints self)
      in logged st (''CREATE TABLE IF NOT EXISTS '' @ tbl_name self
                      @ '' ('' @ columns_query_string @ '')''))"

text \<open>
  \<^verbatim>\<open>__init__\<close>: an empty name or an absent schema raises; otherwise the handle records name,
  columns and constraints, opens its connection and creates the table.
\<close>

definition db_table_init :: "store \<Rightarrow> string \<Rightarrow> schema option \<Rightarrow> store \<times> (py_error + db_table)" where
  "db_table_init st name sch =
     (if name = [] then (st, Inl (RuntimeError ''invalid table name''))
      else (case sch of
              None \<Rightarrow> (st, Inl (RuntimeError ''invalid database schema''))
            | Some s \<Rightarrow>
               (let self = \<lparr>tbl_name = name, tbl_columns = schema_columns s,
                            tbl_constraints = schema_constraints s, db_conn = sqlite3_connect\<rparr>
                in (create_table self st, Inr self))))"

text \<open>The text \<^verbatim>\<open>"'%s'" % preprocess_value(v)\<close> of a value inside a statement.\<close>

definition quoted :: "pyval \<Rightarrow> string" where
  "quoted v = [apos] @ py_str (preprocess_value v) @ [apos]"

datatype where_val = WVal pyval | WList "pyval list"

fun py_of_sql :: "sqlval \<Rightarrow> pyval" where
  "py_of_sql SNull = PNone"
| "py_of_sql (SInt i) = PInt i"
| "py_of_sql (SText s) = PStr s"

text \<open>
  One entry of \<open>where\<close>: its text in the statement, and the condition the engine reads
  from that text. A key that ends in \<^verbatim>\<open> NOT\<close> in front of \<^verbatim>\<open>IN\<close> reads as NOT IN on the
  column before it.
\<close>

fun where_text :: "string \<times> where_val \<Rightarrow> string" where
  "where_text (k, WList vs) =
     k @ '' IN ('' @ join '', '' (map (\<lambda>val. py_str (preprocess_value val)) vs) @ '')''"
| "where_text (k, WVal v) = k @ '' = '' @ quoted v"

definition ends_with_not :: "string \<Rightarrow> bool" where
  "ends_with_not k = suffix '' NOT'' k"

fun where_cond :: "string \<times> where_val \<Rightarrow> cond" where
  "where_cond (k, WList vs) =
     (if ends_with_not k
      then CNotIn (Col (take (length k - 4) k)) (map (\<lambda>val. py_str (preprocess_value val)) vs)
      else CIn (Col k) (map (\<lambda>val. py_str (preprocess_value val)) vs))"
| "where_cond (k, WVal v) = CEq (Col k) (quoted v)"

text \<open>
  \<^verbatim>\<open>select\<close>: all columns of the handle when none are given; the statement text; each
  result row becomes a dict from the requested columns to the decoded values.
\<close>

definition db_table_select ::
  "db_table \<Rightarrow> store \<Rightarrow> string list \<Rightarrow> (db_table \<times> db_table \<times> string \<times> string) list
     \<Rightarrow> (string \<times> where_val) list \<Rightarrow> store \<times> (py_error + pydict list)" where
  "db_table_select self st columns0 joins wher =
     (let columns = (if columns0 = [] then map fst (tbl_columns self) else columns0);
          columns_query_string = join '', '' columns;
          query0 = ''SELECT '' @ tbl_name self @ ''.'' @ columns_query_string
                     @ '' FROM '' @ tbl_name self;
          query1 = (if joins = [] then query0
                    else query0 @ '' JOIN '' @ join '' JOIN ''
                           (map (\<lambda>(table1, table2, table1_column, table2_column).
                                   tbl_name table2 @ '' ON '' @ tbl_name table1 @ ''.''
                                   @ table1_column @ '' = '' @ tbl_name table2 @ ''.''
                                   @ table2_column) joins));
          query = (if wher = [] then query1
                   else query1 @ '' WHERE '' @ join '' AND '' (map where_text wher));
          st' = logged st query
      in case sql_select st (tbl_name self)
                (case columns of [] \<Rightarrow> [] | c # cs \<Rightarrow> QCol (tbl_name self) c # map Col cs)
                (map (\<lambda>(table1, table2, c1, c2). (tbl_name table1, tbl_name table2, c1, c2)) joins)
                (map where_cond wher) of
           Inl e \<Rightarrow> (st', Inl e)
         | Inr rows \<Rightarrow>
            (st', Inr (map (\<lambda>row. fold (\<lambda>(c, v) d. dict_set d c (postprocess_value (py_of_sql v)))
                                     (zip columns row) []) rows)))"

text \<open>
  \<^verbatim>\<open>insert\<close>: the statement text from the keys and the quoted values of the item; the
  result is \<^verbatim>\<open>cursor.lastrowid\<close>. The statement is committed at once, and an error of
  the engine propagates.
\<close>

definition db_table_insert :: "db_table \<Rightarrow> store \<Rightarrow> pydict \<Rightarrow> store \<times> (py_error + int)" where
  "db_table_insert self st item =
     (let columns_query = join '', '' (map fst item);
          values_query = join '', '' (map (\<lambda>kv. quoted (snd kv)) item);
          st' = logged st (''INSERT INTO '' @ tbl_name self @ '' ('' @ columns_query
                             @ '') VALUES ('' @ values_query @ '')'')
      in sql_insert (db_conn self) st' (tbl_name self) (map (\<lambda>kv. (fst kv, quoted (snd kv))) item))"

section \<open>constants.py\<close>

definition ROWS_TO_SKIP :: nat where
  "ROWS_TO_SKIP = 14"

definition IMPORT_INCORRECT_ARG_AMOUNT_ERROR :: string where
  "IMPORT_INCORRECT_ARG_AMOUNT_ERROR = ''Expected 1 additional argument with xls file path''"

definition IMPORT_INVALID_PATH_ERROR :: string where
  "IMPORT_INVALID_PATH_ERROR = ''Provided an invalid path''"

definition IMPORT_INVALID_FILENAME_ERROR :: string where
  "IMPORT_INVALID_FILENAME_ERROR = ''Invalid xls file name''"

definition LOOKUP_NOT_ENOUGH_ARGS_ERROR :: string where
  "LOOKUP_NOT_ENOUGH_ARGS_ERROR = ''Expected 2 or more additional arguments with column and value''"

definition LOOKUP_INVALID_COLUMN_ERROR :: string where
  "LOOKUP_INVALID_COLUMN_ERROR = ''Invalid query column''"

definition EXCEL_COLUMNS :: "string list" where
  "EXCEL_COLUMNS = [''date'', ''time_start'', ''time_end'', ''session_type'', ''title'',
     ''location'', ''description'', ''speakers'']"

definition SESSIONS_COLUMNS :: "string list" where
  "SESSIONS_COLUMNS = [''date'', ''time_start'', ''time_end'', ''title'', ''location'',
     ''description'']"

definition QUERY_COLUMNS :: "string list" where
  "QUERY_COLUMNS = [''date'', ''time_start'', ''time_end'', ''title'', ''location'',
     ''description'', ''speaker'']"

definition DISPLAY_COLUMNS :: "string list" where
  "DISPLAY_COLUMNS = [''title'', ''date'', ''time_start'', ''time_end'', ''location'',
     ''description'']"

section \<open>import\_agenda.py\<close>

text \<open>
  A row of the dataframe: the cell under each of the eight column names that
  \<^verbatim>\<open>read_excel(..., names=EXCEL_COLUMNS)\<close> gives every row. The process environment is what
  the program reads from outside: the argument vector, the file system through
  \<^verbatim>\<open>pathlib\<close>, and the spreadsheet parser.
\<close>

type_synonym excel_row = "string \<Rightarrow> pyval"

record environment =
  argv :: "string list"
  path_is_file :: "string \<Rightarrow> bool"
  path_suffix :: "string \<Rightarrow> string"
  read_excel :: "string \<Rightarrow> nat \<Rightarrow> string list \<Rightarrow> py_error + excel_row list"

record outcome =
  stdout :: "string list"
  exit_status :: nat

text \<open>\<^verbatim>\<open>pd.isna\<close> and \<^verbatim>\<open>pd.notna\<close> on a cell.\<close>

fun isna :: "pyval \<Rightarrow> bool" where
  "isna PNone = True"
| "isna v = False"

definition notna :: "pyval \<Rightarrow> bool" where
  "notna v = (\<not> isna v)"

definition validate_path :: "environment \<Rightarrow> py_error + unit" where
  "validate_path env =
     (if length (argv env) \<noteq> 2 then Inl (ValueError IMPORT_INCORRECT_ARG_AMOUNT_ERROR)
      else if \<not> path_is_file env (argv env ! 1) then Inl (ValueError IMPORT_INVALID_PATH_ERROR)
      else if path_suffix env (argv env ! 1) \<noteq> ''.xls''
        then Inl (ValueError IMPORT_INVALID_FILENAME_ERROR)
      else Inr ())"

text \<open>
  The payload of one row: the present cells among \<open>SESSIONS_COLUMNS\<close>, and for a
  \<^verbatim>\<open>"Sub"\<close> row the entry \<open>supersession_id = last_session_id\<close>.
\<close>

definition session_data_of :: "excel_row \<Rightarrow> pyval \<Rightarrow> pydict" where
  "session_data_of row last_session_id =
     (let session_data = map (\<lambda>key. (key, row key)) (filter (\<lambda>key. notna (row key)) SESSIONS_COLUMNS)
      in if row ''session_type'' = PStr ''Sub''
         then dict_set session_data ''supersession_id'' last_session_id
         else session_data)"

text \<open>
  The loop of \<^verbatim>\<open>process_session_data\<close> from some row on: \<open>session_ids\<close> holds the ids of
  the rows before it, \<open>last_session_id\<close> is the tracked id.
\<close>

fun session_loop ::
  "db_table \<Rightarrow> store \<Rightarrow> pyval \<Rightarrow> int list \<Rightarrow> excel_row list \<Rightarrow> store \<times> (py_error + int list)" where
  "session_loop sessions_table st last_session_id session_ids [] = (st, Inr session_ids)"
| "session_loop sessions_table st last_session_id session_ids (row # rows) =
     (case db_table_insert sessions_table st (session_data_of row last_session_id) of
        (st', Inl e) \<Rightarrow> (st', Inl e)
      | (st', Inr new_id) \<Rightarrow>
          session_loop sessions_table st'
            (if row ''session_type'' = PStr ''Session'' then PInt new_id else last_session_id)
            (session_ids @ [new_id]) rows)"

definition process_session_data ::
  "store \<Rightarrow> excel_row list \<Rightarrow> db_table \<Rightarrow> store \<times> (py_error + int list)" where
  "process_session_data st excel_df sessions_table =
     session_loop sessions_table st PNone [] excel_df"

text \<open>\<^verbatim>\<open>s.split(sep)\<close> for a separator of one character.\<close>

fun split_acc :: "char \<Rightarrow> string \<Rightarrow> string \<Rightarrow> string list" where
  "split_acc sep acc [] = [rev acc]"
| "split_acc sep acc (c # s) =
     (if c = sep then rev acc # split_acc sep [] s else split_acc sep (c # acc) s)"

definition split :: "char \<Rightarrow> string \<Rightarrow> string list" where
  "split sep s = split_acc sep [] s"

text \<open>
  The inner loop of \<^verbatim>\<open>process_speaker_data\<close> over the names of the row at \<open>index\<close>:
  the pair is collected, the speakers table is queried for the name, and the speaker is
  inserted when the query returns nothing.
\<close>

fun names_loop ::
  "db_table \<Rightarrow> int list \<Rightarrow> nat \<Rightarrow> store \<Rightarrow> (int \<times> string) list \<Rightarrow> pydict \<Rightarrow> string list
     \<Rightarrow> store \<times> (py_error + ((int \<times> string) list \<times> pydict))" where
  "names_loop speakers_table session_ids index st sessions_speakers speaker_ids [] =
     (st, Inr (sessions_speakers, speaker_ids))"
| "names_loop speakers_table session_ids index st sessions_speakers speaker_ids (name # names) =
     (if \<not> index < length session_ids
      then (st, Inl (IndexError (''index '' @ show_nat index
              @ '' is out of bounds for axis 0 with size '' @ show_nat (length session_ids))))
      else
        (case db_table_select speakers_table st [''id''] [] [(''name'', WVal (PStr name))] of
           (st1, Inl e) \<Rightarrow> (st1, Inl e)
         | (st1, Inr speakers_match) \<Rightarrow>
            (case speakers_match of
               m # ms \<Rightarrow>
                 (case dict_get m ''id'' of
                    Inl e \<Rightarrow> (st1, Inl e)
                  | Inr i \<Rightarrow>
                     names_loop speakers_table session_ids index st1
                       (sessions_speakers @ [(session_ids ! index, name)])
                       (dict_set speaker_ids name i) names)
             | [] \<Rightarrow>
                 (case db_table_insert speakers_table st1 [(''name'', PStr name)] of
                    (st2, Inl e) \<Rightarrow> (st2, Inl e)
                  | (st2, Inr i) \<Rightarrow>
                     names_loop speakers_table session_ids index st2
                       (sessions_speakers @ [(session_ids ! index, name)])
                       (dict_set speaker_ids name (PInt i)) names))))"

fun speakers_loop ::
  "db_table \<Rightarrow> int list \<Rightarrow> nat \<Rightarrow> store \<Rightarrow> (int \<times> string) list \<Rightarrow> pydict \<Rightarrow> excel_row list
     \<Rightarrow> store \<times> (py_error + ((int \<times> string) list \<times> pydict))" where
  "speakers_loop speakers_table session_ids index st sessions_speakers speaker_ids [] =
     (st, Inr (sessions_speakers, speaker_ids))"
| "speakers_loop speakers_table session_ids index st sessions_speakers speaker_ids (row # rows) =
     (if isna (row ''speakers'')
      then speakers_loop speakers_table session_ids (index + 1) st sessions_speakers speaker_ids rows
      else
        (case names_loop speakers_table session_ids index st sessions_speakers speaker_ids
                (map strip (split CHR '';'' (py_str (row ''speakers'')))) of
           (st', Inl e) \<Rightarrow> (st', Inl e)
         | (st', Inr (sessions_speakers', speaker_ids')) \<Rightarrow>
             speakers_loop speakers_table session_ids (index + 1) st' sessions_speakers'
               speaker_ids' rows))"

text \<open>The second loop: one association row per collected pair, with the memoized id.\<close>

fun associations_loop ::
  "db_table \<Rightarrow> pydict \<Rightarrow> store \<Rightarrow> (int \<times> string) list \<Rightarrow> store \<times> (py_error + unit)" where
  "associations_loop sessions_speakers_table speaker_ids st [] = (st, Inr ())"
| "associations_loop sessions_speakers_table speaker_ids st ((session_id, name) # pairs) =
     (case dict_get speaker_ids name of
        Inl e \<Rightarrow> (st, Inl e)
      | Inr speaker_id \<Rightarrow>
         (case db_table_insert sessions_speakers_table st
                 [(''session_id'', PInt session_id), (''speaker_id'', speaker_id)] of
            (st', Inl e) \<Rightarrow> (st', Inl e)
          | (st', Inr i) \<Rightarrow> associations_loop sessions_speakers_table speaker_ids st' pairs))"

definition process_speaker_data ::
  "store \<Rightarrow> excel_row list \<Rightarrow> int list \<Rightarrow> db_table \<Rightarrow> db_table \<Rightarrow> store \<times> (py_error + unit)" where
  "process_speaker_data st excel_df session_ids speakers_table sessions_speakers_table =
     (case speakers_loop speakers_table session_ids 0 st [] [] excel_df of
        (st', Inl e) \<Rightarrow> (st', Inl e)
      | (st', Inr (sessions_speakers, speaker_ids)) \<Rightarrow>
          associations_loop sessions_speakers_table speaker_ids st' sessions_speakers)"

text \<open>The three handles that both entry points construct, in this order.\<close>

definition open_tables ::
  "store \<Rightarrow> store \<times> (py_error + (db_table \<times> db_table \<times> db_table))" where
  "open_tables st =
     (case db_table_init st ''sessions'' (Some sessions_schema) of
        (st1, Inl e) \<Rightarrow> (st1, Inl e)
      | (st1, Inr sessions_table) \<Rightarrow>
         (case db_table_init st1 ''speakers'' (Some speakers_schema) of
            (st2, Inl e) \<Rightarrow> (st2, Inl e)
          | (st2, Inr speakers_table) \<Rightarrow>
             (case db_table_init st2 ''sessions_speakers'' (Some sessions_speakers_schema) of
                (st3, Inl e) \<Rightarrow> (st3, Inl e)
              | (st3, Inr sessions_speakers_table) \<Rightarrow>
                  (st3, Inr (sessions_table, speakers_table, sessions_speakers_table)))))"

definition import_body :: "environment \<Rightarrow> store \<Rightarrow> store \<times> (py_error + unit)" where
  "import_body env st =
     (case validate_path env of
        Inl e \<Rightarrow> (st, Inl e)
      | Inr u \<Rightarrow>
         (case read_excel env (argv env ! 1) ROWS_TO_SKIP EXCEL_COLUMNS of
            Inl e \<Rightarrow> (st, Inl e)
          | Inr excel_df \<Rightarrow>
             (case open_tables st of
                (st1, Inl e) \<Rightarrow> (st1, Inl e)
              | (st1, Inr (sessions_table, speakers_table, sessions_speakers_table)) \<Rightarrow>
                 (case process_session_data st1 excel_df sessions_table of
                    (st2, Inl e) \<Rightarrow> (st2, Inl e)
                  | (st2, Inr session_ids) \<Rightarrow>
                      process_speaker_data st2 excel_df session_ids speakers_table
                        sessions_speakers_table))))"

text \<open>
  \<^verbatim>\<open>main\<close>: the body inside \<^verbatim>\<open>try\<close>; \<^verbatim>\<open>except Exception as e\<close> prints one line and
  exits with status 1. Each element of \<open>stdout\<close> is the argument of one \<^verbatim>\<open>print\<close>.
\<close>

definition import_main :: "environment \<Rightarrow> store \<Rightarrow> store \<times> outcome" where
  "import_main env st =
     (case import_body env st of
        (st', Inl e) \<Rightarrow> (st', \<lparr>stdout = [''Error occured: '' @ message e], exit_status = 1\<rparr>)
      | (st', Inr u) \<Rightarrow> (st', \<lparr>stdout = [], exit_status = 0\<rparr>))"

section \<open>lookup\_agenda.py\<close>

definition validate_query :: "string list \<Rightarrow> py_error + unit" where
  "validate_query args =
     (if length args < 3 then Inl (ValueError LOOKUP_NOT_ENOUGH_ARGS_ERROR)
      else if args ! 1 \<notin> set QUERY_COLUMNS then Inl (ValueError LOOKUP_INVALID_COLUMN_ERROR)
      else Inr ())"

definition get_all_matches ::
  "store \<Rightarrow> string \<Rightarrow> pyval \<Rightarrow> db_table \<Rightarrow> db_table \<Rightarrow> db_table
     \<Rightarrow> store \<times> (py_error + pydict list)" where
  "get_all_matches st column val sessions_table sessions_speakers_table speakers_table =
     (case (if column = ''speaker''
            then db_table_select sessions_table st []
                   [(sessions_table, sessions_speakers_table, ''id'', ''session_id''),
                    (sessions_speakers_table, speakers_table, ''speaker_id'', ''id'')]
                   [(''name'', WVal val)]
            else db_table_select sessions_table st [] [] [(column, WVal val)]) of
        (st1, Inl e) \<Rightarrow> (st1, Inl e)
      | (st1, Inr sessions_match) \<Rightarrow>
         if sessions_match = []
         then (st1, Inl (ValueError ''No matches found for the given query.''))
         else (case sum_map (\<lambda>session. dict_get session ''id'') sessions_match of
                 Inl e \<Rightarrow> (st1, Inl e)
               | Inr selected_session_ids \<Rightarrow>
                  (case db_table_select sessions_table st1 [] []
                          [(''supersession_id'', WList selected_session_ids),
                           (''id NOT'', WList selected_session_ids)] of
                     (st2, Inl e) \<Rightarrow> (st2, Inl e)
                   | (st2, Inr subsessions) \<Rightarrow> (st2, Inr (sessions_match @ subsessions)))))"

definition get_speaker_names ::
  "store \<Rightarrow> pydict \<Rightarrow> db_table \<Rightarrow> db_table \<Rightarrow> store \<times> (py_error + pyval list)" where
  "get_speaker_names st session speakers_table sessions_speakers_table =
     (case dict_get session ''id'' of
        Inl e \<Rightarrow> (st, Inl e)
      | Inr session_id \<Rightarrow>
         (case db_table_select speakers_table st [''name'']
                 [(speakers_table, sessions_speakers_table, ''id'', ''speaker_id'')]
                 [(''session_id'', WVal session_id)] of
            (st1, Inl e) \<Rightarrow> (st1, Inl e)
          | (st1, Inr speakers) \<Rightarrow>
              (st1, sum_map (\<lambda>speaker. dict_get speaker ''name'') speakers)))"

text \<open>
  \<^verbatim>\<open>'; '.join(speaker_names)\<close>: every item must be text; the first item that is not
  raises TypeError with its position and type.
\<close>

fun type_name :: "pyval \<Rightarrow> string" where
  "type_name PNone = ''NoneType''"
| "type_name (PInt i) = ''int''"
| "type_name (PStr s) = ''str''"

fun str_items :: "nat \<Rightarrow> pyval list \<Rightarrow> py_error + string list" where
  "str_items i [] = Inr []"
| "str_items i (PStr s # vs) =
     (case str_items (i + 1) vs of Inl e \<Rightarrow> Inl e | Inr ss \<Rightarrow> Inr (s # ss))"
| "str_items i (v # vs) =
     Inl (TypeError (''sequence item '' @ show_nat i @ '': expected str instance, ''
            @ type_name v @ '' found''))"

text \<open>
  \<^verbatim>\<open>print_session\<close>: the lines printed so far, and the error that stopped the printing if
  there was one. The speakers line is evaluated in full before it is printed. Its f-string
  nests double quotes, which Python accepts from version 3.12 on.
\<close>

fun print_columns :: "pydict \<Rightarrow> string list \<Rightarrow> string list \<times> (py_error + unit)" where
  "print_columns session [] = ([], Inr ())"
| "print_columns session (key # keys) =
     (case dict_get session key of
        Inl e \<Rightarrow> ([], Inl e)
      | Inr v \<Rightarrow>
         (case print_columns session keys of
            (out, r) \<Rightarrow> ((key @ '': '' @ py_str v @ [CHR 0x0A]) # out, r)))"

definition print_session :: "pydict \<Rightarrow> pyval list \<Rightarrow> string list \<times> (py_error + unit)" where
  "print_session session speaker_names =
     (let bar = ''===============================================================''
      in case print_columns session DISPLAY_COLUMNS of
           (out, Inl e) \<Rightarrow> (bar # out, Inl e)
         | (out, Inr u) \<Rightarrow>
            (case (if speaker_names = [] then Inr ''None''
                   else (case str_items 0 speaker_names of
                           Inl e \<Rightarrow> Inl e
                         | Inr names \<Rightarrow> Inr (join ''; '' names))) of
               Inl e \<Rightarrow> (bar # out, Inl e)
             | Inr shown \<Rightarrow>
                 (bar # out @ [''speakers: '' @ shown, bar @ [CHR 0x0A]], Inr ())))"

fun print_all ::
  "store \<Rightarrow> db_table \<Rightarrow> db_table \<Rightarrow> pydict list \<Rightarrow> store \<times> string list \<times> (py_error + unit)" where
  "print_all st speakers_table sessions_speakers_table [] = (st, [], Inr ())"
| "print_all st speakers_table sessions_speakers_table (session # sessions) =
     (case get_speaker_names st session speakers_table sessions_speakers_table of
        (st1, Inl e) \<Rightarrow> (st1, [], Inl e)
      | (st1, Inr speaker_names) \<Rightarrow>
         (case print_session session speaker_names of
            (out, Inl e) \<Rightarrow> (st1, out, Inl e)
          | (out, Inr u) \<Rightarrow>
             (case print_all st1 speakers_table sessions_speakers_table sessions of
                (st2, out', r) \<Rightarrow> (st2, out @ out', r))))"

definition lookup_body :: "string list \<Rightarrow> store \<Rightarrow> store \<times> string list \<times> (py_error + unit)" where
  "lookup_body args st =
     (case validate_query args of
        Inl e \<Rightarrow> (st, [], Inl e)
      | Inr u \<Rightarrow>
         (let column = args ! 1;
              val = join '' '' (drop 2 args)
          in case open_tables st of
               (st1, Inl e) \<Rightarrow> (st1, [], Inl e)
             | (st1, Inr (sessions_table, speakers_table, sessions_speakers_table)) \<Rightarrow>
                (case get_all_matches st1 column (PStr val) sessions_table
                        sessions_speakers_table speakers_table of
                   (st2, Inl e) \<Rightarrow> (st2, [], Inl e)
                 | (st2, Inr all_matched_sessions) \<Rightarrow>
                     print_all st2 speakers_table sessions_speakers_table all_matched_sessions)))"

definition lookup_main :: "string list \<Rightarrow> store \<Rightarrow> store \<times> outcome" where
  "lookup_main args st =
     (case lookup_body args st of
        (st', out, Inl e) \<Rightarrow>
          (st', \<lparr>stdout = out @ [''Error occured: '' @ message e], exit_status = 1\<rparr>)
      | (st', out, Inr u) \<Rightarrow> (st', \<lparr>stdout = out, exit_status = 0\<rparr>))"

section \<open>Definitions used by the statements and proofs\<close>

definition double_apos :: "string \<Rightarrow> string" where
  "double_apos s = concat (map (\<lambda>c. if c = apos then [apos, apos] else [c]) s)"

definition empty_store :: store where
  "empty_store = \<lparr>table_rows = (\<lambda>t. []), sequence = (\<lambda>t. 0), statements = []\<rparr>"

definition agenda_row :: "string \<Rightarrow> string \<Rightarrow> pyval \<Rightarrow> excel_row" where
  "agenda_row session_type title speakers =
     (\<lambda>key. if key = ''session_type'' then PStr session_type
            else if key = ''title'' then PStr title
            else if key = ''speakers'' then speakers
            else PNone)"

definition session_row :: "int \<Rightarrow> string \<Rightarrow> sqlval \<Rightarrow> int \<times> cells" where
  "session_row i title super =
     (i, [(''id'', SInt i), (''date'', SNull), (''time_start'', SNull), (''time_end'', SNull),
          (''title'', SText title), (''location'', SNull), (''description'', SNull),
          (''supersession_id'', super)])"

definition nested_store :: store where
  "nested_store =
     \<lparr>table_rows = (\<lambda>t. if t = ''sessions''
          then [session_row 1 ''Keynote'' SNull, session_row 2 ''Part 1'' (SInt 1),
                session_row 3 ''Part 2'' (SInt 1), session_row 4 ''Part 2a'' (SInt 3)]
          else []),
      sequence = (\<lambda>t. if t = ''sessions'' then 4 else 0),
      statements = []\<rparr>"

text \<open>The text a value leaves in the store: stripped text, decimal digits, or the word None.\<close>

fun stored_text :: "pyval \<Rightarrow> string" where
  "stored_text (PStr s) = strip s"
| "stored_text (PInt i) = show_int i"
| "stored_text PNone = ''None''"

definition sessions_table :: db_table where
  "sessions_table = \<lparr>tbl_name = ''sessions'', tbl_columns = schema_columns sessions_schema,
     tbl_constraints = schema_constraints sessions_schema, db_conn = sqlite3_connect\<rparr>"

definition speakers_table :: db_table where
  "speakers_table = \<lparr>tbl_name = ''speakers'', tbl_columns = schema_columns speakers_schema,
     tbl_constraints = schema_constraints speakers_schema, db_conn = sqlite3_connect\<rparr>"

definition sessions_speakers_table :: db_table where
  "sessions_speakers_table = \<lparr>tbl_name = ''sessions_speakers'',
     tbl_columns = schema_columns sessions_speakers_schema,
     tbl_constraints = schema_constraints sessions_speakers_schema, db_conn = sqlite3_connect\<rparr>"

definition next_id :: "store \<Rightarrow> string \<Rightarrow> int" where
  "next_id st t = max (max_rowid (table_rows st t)) (sequence st t) + 1"

definition col_value :: "string \<Rightarrow> int \<times> cells \<Rightarrow> string \<Rightarrow> sqlval" where
  "col_value t r c = cell (row_view t r) c"

definition text_cell :: "pydict \<Rightarrow> string \<Rightarrow> sqlval" where
  "text_cell item c = (case map_of item c of None \<Rightarrow> SNull | Some v \<Rightarrow> SText (stored_text v))"

definition int_cell :: "pydict \<Rightarrow> string \<Rightarrow> sqlval" where
  "int_cell item c =
     (case map_of item c of None \<Rightarrow> SNull | Some v \<Rightarrow> apply_affinity AInteger (SText (stored_text v)))"

definition sessions_cells :: "pydict \<Rightarrow> cells" where
  "sessions_cells item =
     [(''id'', SNull), (''date'', text_cell item ''date''),
      (''time_start'', text_cell item ''time_start''), (''time_end'', text_cell item ''time_end''),
      (''title'', text_cell item ''title''), (''location'', text_cell item ''location''),
      (''description'', text_cell item ''description''),
      (''supersession_id'', int_cell item ''supersession_id'')]"

definition insert_text :: "db_table \<Rightarrow> pydict \<Rightarrow> string" where
  "insert_text self item =
     ''INSERT INTO '' @ tbl_name self @ '' ('' @ join '', '' (map fst item)
       @ '') VALUES ('' @ join '', '' (map (\<lambda>kv. quoted (snd kv)) item) @ '')''"

definition assigns_of :: "pydict \<Rightarrow> (string \<times> string) list" where
  "assigns_of item = map (\<lambda>kv. (fst kv, quoted (snd kv))) item"

definition has_payload :: "excel_row \<Rightarrow> bool" where
  "has_payload row =
     (list_ex (\<lambda>key. notna (row key)) SESSIONS_COLUMNS \<or> row ''session_type'' = PStr ''Sub'')"

fun session_rows :: "int \<Rightarrow> pyval \<Rightarrow> excel_row list \<Rightarrow> (int \<times> cells) list" where
  "session_rows n lsid [] = []"
| "session_rows n lsid (row # rows) =
     (n, sessions_cells (session_data_of row lsid))
       # session_rows (n + 1) (if row ''session_type'' = PStr ''Session'' then PInt n else lsid) rows"

fun tracked :: "int \<Rightarrow> pyval \<Rightarrow> excel_row list \<Rightarrow> pyval" where
  "tracked n lsid [] = lsid"
| "tracked n lsid (row # rows) =
     tracked (n + 1) (if row ''session_type'' = PStr ''Session'' then PInt n else lsid) rows"

definition after_insert :: "store \<Rightarrow> string \<Rightarrow> string \<Rightarrow> cells \<Rightarrow> store" where
  "after_insert st text t given =
     (logged st text)\<lparr>table_rows := (table_rows st)(t := table_rows st t @ [(next_id st t, given)]),
        sequence := (sequence st)(t := next_id st t)\<rparr>"

definition select_text ::
  "db_table \<Rightarrow> string list \<Rightarrow> (db_table \<times> db_table \<times> string \<times> string) list
     \<Rightarrow> (string \<times> where_val) list \<Rightarrow> string" where
  "select_text self columns0 joins wher =
     (let columns = (if columns0 = [] then map fst (tbl_columns self) else columns0);
          query0 = ''SELECT '' @ tbl_name self @ ''.'' @ join '', '' columns
                     @ '' FROM '' @ tbl_name self;
          query1 = (if joins = [] then query0
                    else query0 @ '' JOIN '' @ join '' JOIN ''
                           (map (\<lambda>(table1, table2, table1_column, table2_column).
                                   tbl_name table2 @ '' ON '' @ tbl_name table1 @ ''.''
                                   @ table1_column @ '' = '' @ tbl_name table2 @ ''.''
                                   @ table2_column) joins))
      in if wher = [] then query1
         else query1 @ '' WHERE '' @ join '' AND '' (map where_text wher))"

definition session_dict :: "int \<times> cells \<Rightarrow> pydict" where
  "session_dict r =
     map (\<lambda>c. (c, postprocess_value (py_of_sql (col_value ''sessions'' r c))))
       [''id'', ''date'', ''time_start'', ''time_end'', ''title'', ''location'',
        ''description'', ''supersession_id'']"

definition title_matches :: "store \<Rightarrow> string \<Rightarrow> (int \<times> cells) list" where
  "title_matches st v =
     filter (\<lambda>r. col_value ''sessions'' r ''title'' = SText (strip v)) (table_rows st ''sessions'')"



definition primary_match :: "store \<Rightarrow> string \<Rightarrow> pyval \<Rightarrow> store \<times> (py_error + pydict list)" where
  "primary_match st column val =
     (if column = ''speaker''
      then db_table_select sessions_table st []
             [(sessions_table, sessions_speakers_table, ''id'', ''session_id''),
              (sessions_speakers_table, speakers_table, ''speaker_id'', ''id'')]
             [(''name'', WVal val)]
      else db_table_select sessions_table st [] [] [(column, WVal val)])"

definition named :: "string \<Rightarrow> int \<times> cells \<Rightarrow> bool" where
  "named n r = (col_value ''speakers'' r ''name'' = SText n)"

definition keyed :: "int \<Rightarrow> int \<Rightarrow> int \<times> cells \<Rightarrow> bool" where
  "keyed a b r = (col_value ''sessions_speakers'' r ''session_id'' = SInt a
                  \<and> col_value ''sessions_speakers'' r ''speaker_id'' = SInt b)"

definition speaker_cells :: "string \<Rightarrow> cells" where
  "speaker_cells n = [(''id'', SNull), (''name'', SText n)]"

definition association_cells :: "int \<Rightarrow> int \<Rightarrow> cells" where
  "association_cells a b = [(''session_id'', SInt a), (''speaker_id'', SInt b)]"

definition after_association :: "store \<Rightarrow> string \<Rightarrow> int \<Rightarrow> int \<Rightarrow> store" where
  "after_association st text a b =
     (logged st text)\<lparr>table_rows := (table_rows st)(''sessions_speakers'' :=
        table_rows st ''sessions_speakers''
          @ [(max_rowid (table_rows st ''sessions_speakers'') + 1, association_cells a b)])\<rparr>"

definition unique_failed :: "string \<Rightarrow> py_error" where
  "unique_failed cols = IntegrityError (''UNIQUE constraint failed: '' @ cols)"

definition speaker_names_of :: "excel_row \<Rightarrow> string list" where
  "speaker_names_of row = map strip (split CHR '';'' (py_str (row ''speakers'')))"

fun pending :: "int list \<Rightarrow> nat \<Rightarrow> excel_row list \<Rightarrow> (int \<times> string) list" where
  "pending sids index [] = []"
| "pending sids index (row # rows) =
     (if isna (row ''speakers'') then []
      else map (Pair (sids ! index)) (speaker_names_of row))
     @ pending sids (index + 1) rows"

definition resolve_name :: "string \<Rightarrow> store \<times> pydict \<Rightarrow> store \<times> pydict" where
  "resolve_name n sd =
     (case sd of (st, d) \<Rightarrow>
        (case filter (named n) (table_rows st ''speakers'') of
           r # rest \<Rightarrow>
             (logged st (select_text speakers_table [''id''] [] [(''name'', WVal (PStr n))]),
              dict_set d n (PInt (fst r)))
         | [] \<Rightarrow>
             (after_insert
                (logged st (select_text speakers_table [''id''] [] [(''name'', WVal (PStr n))]))
                (insert_text speakers_table [(''name'', PStr n)]) ''speakers'' (speaker_cells n),
              dict_set d n (PInt (next_id st ''speakers'')))))"

definition agrees :: "pydict \<Rightarrow> (int \<times> cells) list \<Rightarrow> bool" where
  "agrees d rs =
     (\<forall>n v. map_of d n = Some v \<longrightarrow> (\<exists>r rest. filter (named n) rs = r # rest \<and> v = PInt (fst r)))"

definition count_named :: "string \<Rightarrow> (int \<times> cells) list \<Rightarrow> nat" where
  "count_named n rs = length (filter (named n) rs)"

definition speaker_int :: "pydict \<Rightarrow> string \<Rightarrow> int" where
  "speaker_int d n = (case map_of d n of Some (PInt p) \<Rightarrow> p | _ \<Rightarrow> 0)"

definition resolved :: "pydict \<Rightarrow> (int \<times> string) list \<Rightarrow> (int \<times> int) list" where
  "resolved d pairs = map (\<lambda>sn. (fst sn, speaker_int d (snd sn))) pairs"

text \<open>
  The association table that the insert loop of \<^verbatim>\<open>process_speaker_data\<close> leaves: a row is
  appended for each key in turn, with the next row id, up to the first key that a stored
  row already has; the flag tells whether every key was inserted.
\<close>

fun association_rows :: "(int \<times> cells) list \<Rightarrow> (int \<times> int) list \<Rightarrow> (int \<times> cells) list \<times> bool" where
  "association_rows rs [] = (rs, True)"
| "association_rows rs (ab # ps) =
     (if list_ex (keyed (fst ab) (snd ab)) rs then (rs, False)
      else association_rows (rs @ [(max_rowid rs + 1, association_cells (fst ab) (snd ab))]) ps)"

definition pair_failed :: py_error where
  "pair_failed = unique_failed ''sessions_speakers.session_id, sessions_speakers.speaker_id''"

definition resolved_store :: "store \<Rightarrow> int list \<Rightarrow> excel_row list \<Rightarrow> store \<times> pydict" where
  "resolved_store st sids rows = fold resolve_name (map snd (pending sids 0 rows)) (st, [])"

definition ada_rows :: "excel_row list" where
  "ada_rows = [agenda_row ''Session'' ''Keynote'' (PStr ''Ada Lovelace; Bob''),
               agenda_row ''Sub'' ''Workshop'' (PStr ''  Ada Lovelace '')]"

definition ada_sessions :: store where
  "ada_sessions = fst (process_session_data empty_store ada_rows sessions_table)"

definition ada_imported :: store where
  "ada_imported = fst (process_speaker_data ada_sessions ada_rows [1, 2] speakers_table
                         sessions_speakers_table)"

text \<open>
  The id that \<^verbatim>\<open>process_speaker_data\<close> reads for a name, \<^verbatim>\<open>select(['id'], where={'name': name})[0]['id']\<close>:
  the id of the first speakers row of that name. The keys of the association rows are the
  collected pairs with the name replaced by that id.
\<close>

definition speaker_key :: "(int \<times> cells) list \<Rightarrow> string \<Rightarrow> int" where
  "speaker_key speakers n = fst (hd (filter (named n) speakers))"

definition association_keys :: "(int \<times> cells) list \<Rightarrow> (int \<times> string) list \<Rightarrow> (int \<times> int) list" where
  "association_keys speakers pairs = map (\<lambda>sn. (fst sn, speaker_key speakers (snd sn))) pairs"

definition panel_environment :: environment where
  "panel_environment =
     \<lparr>argv = [''import_agenda.py'', ''agenda.xls''],
      path_is_file = (\<lambda>p. True),
      path_suffix = (\<lambda>p. ''.xls''),
      read_excel = (\<lambda>file skip names.
         Inr [agenda_row ''Session'' ''Opening'' (PStr ''Grace Hopper''),
              agenda_row ''Session'' ''Panel'' (PStr ''A; A'')])\<rparr>"

section \<open>Lemmas\<close>

lemma replace_single: "str_replace [apos] [apos, apos] s = double_apos s"
  by (induction s) (auto simp: double_apos_def)

lemma replace_double: "str_replace [apos, apos] [apos] (double_apos s) = s"
  by (induction s) (auto simp: double_apos_def)

lemma isspace_apos: "\<not> isspace apos"
  by (simp add: isspace_def)

lemma dropWhile_double: "dropWhile isspace (double_apos s) = double_apos (dropWhile isspace s)"
  by (induction s) (auto simp: double_apos_def isspace_apos)

lemma rev_double: "rev (double_apos s) = double_apos (rev s)"
  by (induction s) (auto simp: double_apos_def)

lemma strip_double: "strip (double_apos s) = double_apos (strip s)"
  by (simp add: strip_def dropWhile_double rev_double)

lemma decode_encode: "postprocess_value (preprocess_value (PStr x)) = PStr (strip x)"
  by (simp add: replace_single strip_double replace_double)

lemma double_apos_run: "double_apos (replicate k apos) = replicate (2 * k) apos"
  by (induction k) (auto simp: double_apos_def)

lemma double_apos_id: "apos \<notin> set s \<Longrightarrow> double_apos s = s"
  by (induction s) (auto simp: double_apos_def)

lemma sql_unquote_double: "sql_unquote (double_apos s @ [apos]) = Some s"
proof (induction s)
  case Nil
  show ?case by (simp add: double_apos_def)
next
  case (Cons c s)
  have step: "double_apos (c # s) = (if c = apos then [apos, apos] else [c]) @ double_apos s"
    by (simp add: double_apos_def)
  show ?case
  proof (cases "c = apos")
    case True
    with Cons step show ?thesis by simp
  next
    case False
    obtain d r where "double_apos s @ [apos] = d # r"
      by (cases "double_apos s @ [apos]") auto
    with False Cons step show ?thesis by simp
  qed
qed

lemma is_digit_char: "d < 10 \<Longrightarrow> is_digit (digit_char d)"
  by (simp add: is_digit_def digit_char_def)

lemma digit_char_value: "d < 10 \<Longrightarrow> of_char (digit_char d) - 48 = d"
  by (simp add: digit_char_def)

lemma show_nat_digits: "list_all is_digit (show_nat n)"
  by (induction n rule: show_nat.induct) (subst show_nat.simps, simp add: is_digit_char)

lemma show_nat_nonempty: "show_nat n \<noteq> []"
  by (subst show_nat.simps) simp

lemma digits_value_snoc: "digits_value (ds @ [c]) = 10 * digits_value ds + (of_char c - 48)"
  by (simp add: digits_value_def)

lemma digits_value_show: "digits_value (show_nat n) = n"
proof (induction n rule: show_nat.induct)
  case (1 n)
  show ?case
  proof (cases "n < 10")
    case True
    then show ?thesis by (subst show_nat.simps) (simp add: digits_value_def digit_char_value)
  next
    case False
    with 1 show ?thesis
      by (subst show_nat.simps) (simp add: digits_value_snoc digit_char_value)
  qed
qed

lemma is_digit_not_minus: "is_digit c \<Longrightarrow> c \<noteq> CHR ''-''"
  by (auto simp: is_digit_def)

lemma is_digit_not_apos: "is_digit c \<Longrightarrow> c \<noteq> apos"
  by (auto simp: is_digit_def)

lemma int_of_text_show: "int_of_text (show_int i) = Some i"
proof (cases "i < 0")
  case True
  then show ?thesis
    by (simp add: int_of_text_def show_int_def show_nat_digits show_nat_nonempty digits_value_show)
next
  case False
  obtain c ds where cd: "show_nat (nat i) = c # ds"
    using show_nat_nonempty [of "nat i"] by (cases "show_nat (nat i)") auto
  have "list_all is_digit (c # ds)" using show_nat_digits [of "nat i"] cd by simp
  then have "c \<noteq> CHR ''-''" using is_digit_not_minus by auto
  moreover have "digits_value (c # ds) = nat i" using digits_value_show [of "nat i"] cd by simp
  ultimately show ?thesis
    using False cd \<open>list_all is_digit (c # ds)\<close>
    by (simp add: int_of_text_def show_int_def)
qed

lemma show_int_no_apos: "apos \<notin> set (show_int i)"
proof -
  have "apos \<notin> set (show_nat n)" for n
    using show_nat_digits [of n] is_digit_not_apos by (auto simp: list_all_iff)
  then show ?thesis by (simp add: show_int_def)
qed

lemma sql_literal_quoted: "sql_literal (quoted v) = Some (SText (stored_text v))"
proof (cases v)
  case PNone
  then show ?thesis by (simp add: quoted_def sql_literal_def)
next
  case (PInt i)
  have "sql_unquote (double_apos (show_int i) @ [apos]) = Some (show_int i)"
    by (rule sql_unquote_double)
  then show ?thesis using PInt
    by (simp add: quoted_def sql_literal_def double_apos_id show_int_no_apos)
next
  case (PStr s)
  have "sql_unquote (double_apos (strip s) @ [apos]) = Some (strip s)"
    by (rule sql_unquote_double)
  then show ?thesis using PStr
    by (simp add: quoted_def sql_literal_def replace_single strip_double)
qed

lemma open_tables_rows: "table_rows (fst (open_tables st)) = table_rows st"
  by (simp add: open_tables_def db_table_init_def create_table_def logged_def Let_def)

lemma open_tables_handles:
  "snd (open_tables st) = Inr (sessions_table, speakers_table, sessions_speakers_table)"
  by (simp add: open_tables_def db_table_init_def Let_def sessions_table_def speakers_table_def
      sessions_speakers_table_def)

lemma fold_max_ge: "m \<le> fold (\<lambda>x m. max (fst x) m) rs (m::int)"
proof (induction rs arbitrary: m)
  case Nil
  show ?case by simp
next
  case (Cons r rs)
  have "max (fst r) m \<le> fold (\<lambda>x m. max (fst x) m) rs (max (fst r) m)" by (rule Cons)
  then show ?case by simp
qed

lemma fold_max_mem: "r \<in> set rs \<Longrightarrow> fst r \<le> fold (\<lambda>x m. max (fst x) m) rs (m::int)"
proof (induction rs arbitrary: m)
  case Nil
  then show ?case by simp
next
  case (Cons a rs)
  show ?case
  proof (cases "r = a")
    case True
    have "max (fst a) m \<le> fold (\<lambda>x m. max (fst x) m) rs (max (fst a) m)" by (rule fold_max_ge)
    with True show ?thesis by simp
  next
    case False
    with Cons show ?thesis by simp
  qed
qed

lemma max_rowid_ge: "r \<in> set rs \<Longrightarrow> fst r \<le> max_rowid rs"
proof (cases rs)
  case Nil
  assume "r \<in> set rs"
  with Nil show ?thesis by simp
next
  case (Cons a as)
  assume r: "r \<in> set rs"
  show ?thesis
  proof (cases "r = a")
    case True
    with Cons fold_max_ge [of "fst a" as] show ?thesis by (simp add: max_rowid_def)
  next
    case False
    with r Cons fold_max_mem [of r as "fst a"] show ?thesis by (simp add: max_rowid_def)
  qed
qed

lemma next_id_fresh: "r \<in> set (table_rows st t) \<Longrightarrow> fst r < next_id st t"
  using max_rowid_ge [of r "table_rows st t"] by (simp add: next_id_def)

lemma insort_fresh: "\<forall>r\<in>set rs. fst r < n \<Longrightarrow> insort_key fst (n, c) rs = rs @ [(n::int, c)]"
  by (induction rs) auto

lemma fold_max_append: "fold (\<lambda>x m. max (fst x) m) (rs @ [(n, c)]) (m::int) = max n (fold (\<lambda>x m. max (fst x) m) rs m)"
  by simp

lemma max_rowid_snoc: "\<forall>r\<in>set rs. fst r < n \<Longrightarrow> max_rowid (rs @ [(n, c)]) = n"
proof (cases rs)
  case Nil
  then show ?thesis by (simp add: max_rowid_def)
next
  case (Cons a as)
  assume less: "\<forall>r\<in>set rs. fst r < n"
  have "fold (\<lambda>x m. max (fst x) m) as (fst a) = max_rowid rs"
    using Cons by (simp add: max_rowid_def)
  moreover have "max_rowid rs < n"
  proof -
    have "fold (\<lambda>x m. max (fst x) m) as (fst a) < n" using less Cons
    proof (induction as arbitrary: a rs)
      case Nil
      then show ?case by simp
    next
      case (Cons b bs)
      have "fold (\<lambda>x m. max (fst x) m) bs (fst (max (fst b) (fst a), snd a)) < n"
        by (rule Cons.IH [of "(max (fst b) (fst a), snd a) # bs"]) (use Cons.prems in auto)
      then show ?case by simp
    qed
    with calculation show ?thesis by simp
  qed
  ultimately show ?thesis using Cons by (simp add: max_rowid_def)
qed

lemma db_table_insert_eq:
  "db_table_insert self st item =
     sql_insert (db_conn self) (logged st (insert_text self item)) (tbl_name self) (assigns_of item)"
  by (simp add: db_table_insert_def insert_text_def assigns_of_def Let_def)

lemma those_literals:
  "those (map (\<lambda>a. sql_literal (snd a)) (assigns_of item))
     = Some (map (\<lambda>kv. SText (stored_text (snd kv))) item)"
  by (induction item) (simp_all add: assigns_of_def sql_literal_quoted)

lemma map_of_assigned:
  "map_of (zip (map fst (assigns_of item)) (map (\<lambda>kv. SText (stored_text (snd kv))) item)) c
     = map_option (\<lambda>v. SText (stored_text v)) (map_of item c)"
  by (induction item) (simp_all add: assigns_of_def)

lemma assigns_of_empty: "(assigns_of item = []) = (item = [])"
  by (simp add: assigns_of_def)

lemma assigns_of_keys: "map fst (assigns_of item) = map fst item"
  by (simp add: assigns_of_def)

lemma catalog_sessions: "catalog ''sessions'' = Some sessions_info"
  by (simp add: catalog_def)

lemma catalog_speakers: "catalog ''speakers'' = Some speakers_info"
  by (simp add: catalog_def)

lemma catalog_sessions_speakers: "catalog ''sessions_speakers'' = Some sessions_speakers_info"
  by (simp add: catalog_def)

lemma sql_insert_sessions:
  assumes nonempty: "item \<noteq> []"
    and keys: "set (map fst item) \<subseteq> {''date'', ''time_start'', ''time_end'', ''title'',
                  ''location'', ''description'', ''supersession_id''}"
  shows "sql_insert conn st ''sessions'' (assigns_of item) =
           insert_row conn st ''sessions'' sessions_info (sessions_cells item)"
proof -
  have known: "filter (\<lambda>c. c \<notin> set (map fst (col_affinity sessions_info)))
                 (map fst (assigns_of item)) = []"
    using keys by (auto simp: sessions_info_def assigns_of_keys filter_empty_conv)
  have noid: "map_of item ''id'' = None"
    using keys by (auto simp: map_of_eq_None_iff)
  have cells: "map (\<lambda>(c, a). (c, case map_of (zip (map fst (assigns_of item))
                      (map (\<lambda>kv. SText (stored_text (snd kv))) item)) c of
                    None \<Rightarrow> SNull | Some v \<Rightarrow> apply_affinity a v)) (col_affinity sessions_info)
               = sessions_cells item"
    by (simp add: sessions_info_def map_of_assigned sessions_cells_def text_cell_def
        int_cell_def noid split: option.splits)
  show ?thesis
    unfolding sql_insert_def
    using nonempty known cells
    by (simp add: catalog_sessions assigns_of_empty those_literals)
qed

lemma sessions_info_fields:
  "rowid_alias sessions_info = Some ''id''" "autoincrement sessions_info = True"
  "unique_keys sessions_info = []"
  by (simp_all add: sessions_info_def)

lemma insert_row_sessions:
  "insert_row sqlite3_connect st ''sessions'' sessions_info given =
     (case cell given ''id'' of
        SNull \<Rightarrow>
          (st\<lparr>table_rows := (table_rows st)(''sessions'' :=
                  table_rows st ''sessions'' @ [(next_id st ''sessions'', given)]),
              sequence := (sequence st)(''sessions'' := next_id st ''sessions'')\<rparr>,
           Inr (next_id st ''sessions''))
      | SInt i \<Rightarrow> insert_row sqlite3_connect st ''sessions'' sessions_info given
      | SText s \<Rightarrow> (st, Inl (IntegrityError ''datatype mismatch'')))"
proof (cases "cell given ''id''")
  case SNull
  have fresh: "\<forall>r\<in>set (table_rows st ''sessions''). fst r < next_id st ''sessions''"
    using next_id_fresh by blast
  then have notin: "next_id st ''sessions'' \<notin> fst ` set (table_rows st ''sessions'')"
    by auto
  have seq: "max (sequence st ''sessions'') (next_id st ''sessions'') = next_id st ''sessions''"
    by (simp add: next_id_def)
  have nr: "new_rowid sessions_info st ''sessions'' = next_id st ''sessions''"
    by (simp add: new_rowid_def next_id_def sessions_info_def)
  show ?thesis
    using SNull notin seq insort_fresh [OF fresh]
    by (simp add: insert_row_def Let_def nr sqlite3_connect_def sessions_info_fields)
next
  case (SInt i)
  then show ?thesis by simp
next
  case (SText s)
  then show ?thesis by (simp add: insert_row_def Let_def sessions_info_fields)
qed

lemma dict_set_nonempty: "dict_set d k v \<noteq> []"
  by (cases d) (auto split: if_splits)

lemma dict_set_keys: "set (map fst (dict_set d k v)) = insert k (set (map fst d))"
proof (induction d)
  case Nil
  show ?case by simp
next
  case (Cons p d)
  then show ?case by (cases p) (auto split: if_splits)
qed

lemma map_of_dict_set: "map_of (dict_set d k v) k' = (if k' = k then Some v else map_of d k')"
  by (induction d) auto

lemma session_data_nonempty: "has_payload row \<Longrightarrow> session_data_of row lsid \<noteq> []"
  by (auto simp: has_payload_def session_data_of_def Let_def dict_set_nonempty list_ex_iff
      filter_empty_conv)

lemma session_data_keys:
  "set (map fst (session_data_of row lsid)) \<subseteq> {''date'', ''time_start'', ''time_end'', ''title'',
      ''location'', ''description'', ''supersession_id''}"
  by (auto simp: session_data_of_def Let_def dict_set_keys SESSIONS_COLUMNS_def)

lemma logged_fields [simp]:
  "table_rows (logged st text) = table_rows st" "sequence (logged st text) = sequence st"
  "statements (logged st text) = statements st @ [text]"
  by (simp_all add: logged_def)

lemma next_id_logged [simp]: "next_id (logged st text) t = next_id st t"
  by (simp add: next_id_def)

lemma insert_session_row:
  assumes "has_payload row"
  shows "db_table_insert sessions_table st (session_data_of row lsid) =
           (after_insert st (insert_text sessions_table (session_data_of row lsid)) ''sessions''
              (sessions_cells (session_data_of row lsid)),
            Inr (next_id st ''sessions''))"
proof -
  have id_null: "cell (sessions_cells item) ''id'' = SNull" for item
    by (simp add: sessions_cells_def cell_def)
  show ?thesis
    using sql_insert_sessions [OF session_data_nonempty [OF assms] session_data_keys]
    by (simp add: db_table_insert_eq sessions_table_def insert_row_sessions id_null
        after_insert_def)
qed

lemma after_insert_rows [simp]:
  "table_rows (after_insert st text t given) =
     (table_rows st)(t := table_rows st t @ [(next_id st t, given)])"
  by (simp add: after_insert_def)

lemma next_id_after_insert [simp]: "next_id (after_insert st text t given) t = next_id st t + 1"
proof -
  have "\<forall>r\<in>set (table_rows st t). fst r < next_id st t"
    using next_id_fresh by blast
  then have "max_rowid (table_rows st t @ [(next_id st t, given)]) = next_id st t"
    by (rule max_rowid_snoc)
  then show ?thesis
    by (simp add: after_insert_def next_id_def [of "_\<lparr>table_rows := _, sequence := _\<rparr>"])
qed

lemma session_loop_run:
  assumes "\<forall>row\<in>set rows. has_payload row"
  shows "\<exists>st'. session_loop sessions_table st lsid ids rows =
            (st', Inr (ids @ map fst (session_rows (next_id st ''sessions'') lsid rows)))
          \<and> table_rows st' = (table_rows st)(''sessions'' :=
               table_rows st ''sessions'' @ session_rows (next_id st ''sessions'') lsid rows)"
  using assms
proof (induction rows arbitrary: st lsid ids)
  case Nil
  show ?case by simp
next
  case (Cons row rows)
  let ?n = "next_id st ''sessions''"
  let ?st1 = "after_insert st (insert_text sessions_table (session_data_of row lsid)) ''sessions''
                (sessions_cells (session_data_of row lsid))"
  let ?lsid = "if row ''session_type'' = PStr ''Session'' then PInt ?n else lsid"
  have row: "has_payload row" and rest: "\<forall>r\<in>set rows. has_payload r"
    using Cons.prems by simp_all
  obtain st' where
    run: "session_loop sessions_table ?st1 ?lsid (ids @ [?n]) rows =
            (st', Inr ((ids @ [?n]) @ map fst (session_rows (next_id ?st1 ''sessions'') ?lsid rows)))"
    and tbl: "table_rows st' = (table_rows ?st1)(''sessions'' :=
               table_rows ?st1 ''sessions'' @ session_rows (next_id ?st1 ''sessions'') ?lsid rows)"
    using Cons.IH [OF rest, of ?st1 ?lsid "ids @ [?n]"] by blast
  show ?case
    using run tbl
    by (cases "row ''session_type'' = PStr ''Session''")
       (simp_all add: insert_session_row [OF row] fun_eq_iff)
qed

lemma length_session_rows [simp]: "length (session_rows n lsid rows) = length rows"
  by (induction rows arbitrary: n lsid) simp_all

lemma nth_session_rows:
  "j < length rows \<Longrightarrow>
     session_rows n lsid rows ! j =
       (n + int j, sessions_cells (session_data_of (rows ! j) (tracked n lsid (take j rows))))"
proof (induction rows arbitrary: n lsid j)
  case Nil
  then show ?case by simp
next
  case (Cons row rows)
  show ?case
  proof (cases j)
    case 0
    then show ?thesis by simp
  next
    case (Suc k)
    with Cons.prems have "k < length rows" by simp
    from Cons.IH [OF this] Suc show ?thesis by simp
  qed
qed

lemma tracked_append:
  "tracked n lsid (xs @ ys) = tracked (n + int (length xs)) (tracked n lsid xs) ys"
  by (induction xs arbitrary: n lsid) (simp_all add: add.assoc)

lemma tracked_no_session:
  "\<forall>row\<in>set xs. row ''session_type'' \<noteq> PStr ''Session'' \<Longrightarrow> tracked n lsid xs = lsid"
  by (induction xs arbitrary: n) simp_all

lemma supersession_cell:
  assumes "row ''session_type'' = PStr ''Sub''"
  shows "cell (row_view ''sessions'' (m, sessions_cells (session_data_of row (PInt p))))
           ''supersession_id'' = SInt p"
proof -
  have "map_of (session_data_of row (PInt p)) ''supersession_id'' = Some (PInt p)"
    using assms by (simp add: session_data_of_def Let_def map_of_dict_set)
  then have "int_cell (session_data_of row (PInt p)) ''supersession_id'' = SInt p"
    by (simp add: int_cell_def int_of_text_show)
  then show ?thesis
    by (simp add: row_view_def catalog_sessions sessions_info_fields sessions_cells_def cell_def)
qed

lemma select_logs:
  "fst (db_table_select self st columns0 joins wher)
     = logged st (select_text self columns0 joins wher)"
  by (simp add: db_table_select_def select_text_def Let_def split: sum.splits)

lemma scan_cong: "table_rows st = table_rows st' \<Longrightarrow> scan st t = scan st' t"
  by (simp add: scan_def)

lemma sql_joins_cong:
  "table_rows st = table_rows st' \<Longrightarrow> sql_joins st scope envs js = sql_joins st' scope envs js"
proof (induction js arbitrary: scope envs)
  case Nil
  show ?case by simp
next
  case (Cons j js)
  obtain t1 t2 c1 c2 where j: "j = (t1, t2, c1, c2)" by (cases j) auto
  show ?case
    unfolding j using Cons.IH [OF Cons.prems] scan_cong [OF Cons.prems, of t2]
    by (simp split: sum.splits)
qed

lemma sql_select_cong:
  "table_rows st = table_rows st' \<Longrightarrow>
     sql_select st t cols joins conds = sql_select st' t cols joins conds"
  using sql_joins_cong [of st st'] scan_cong [of st st' t]
  by (simp add: sql_select_def)

lemma select_reads_rows:
  "table_rows st = table_rows st' \<Longrightarrow>
     snd (db_table_select self st columns0 joins wher)
       = snd (db_table_select self st' columns0 joins wher)"
  using sql_select_cong [of st st']
  by (simp add: db_table_select_def Let_def split: sum.splits)

lemma jcell_qualified: "jcell (map (\<lambda>(c, v). ((t, c), v)) cs) (t, c) = cell cs c"
  by (induction cs) (auto simp: jcell_def cell_def)

lemma jcell_scan:
  "e \<in> set (scan st t) \<Longrightarrow> \<exists>r\<in>set (table_rows st t). e = map (\<lambda>(c, v). ((t, c), v)) (row_view t r)"
  by (auto simp: scan_def)

lemma affinity_sessions:
  "column_affinity ''sessions'' ''id'' = Some AInteger"
  "column_affinity ''sessions'' ''date'' = Some AText"
  "column_affinity ''sessions'' ''time_start'' = Some AText"
  "column_affinity ''sessions'' ''time_end'' = Some AText"
  "column_affinity ''sessions'' ''title'' = Some AText"
  "column_affinity ''sessions'' ''location'' = Some AText"
  "column_affinity ''sessions'' ''description'' = Some AText"
  "column_affinity ''sessions'' ''supersession_id'' = Some AInteger"
  by (simp_all add: column_affinity_def catalog_sessions sessions_info_def)

lemma sessions_columns:
  "map fst (tbl_columns sessions_table) = [''id'', ''date'', ''time_start'', ''time_end'',
     ''title'', ''location'', ''description'', ''supersession_id'']"
  by (simp add: sessions_table_def sessions_schema_def)

lemma resolve_sessions_columns:
  "sum_map (resolve [''sessions''])
     [QCol ''sessions'' ''id'', Col ''date'', Col ''time_start'', Col ''time_end'',
      Col ''title'', Col ''location'', Col ''description'', Col ''supersession_id'']
   = Inr [(''sessions'', ''id''), (''sessions'', ''date''), (''sessions'', ''time_start''),
          (''sessions'', ''time_end''), (''sessions'', ''title''), (''sessions'', ''location''),
          (''sessions'', ''description''), (''sessions'', ''supersession_id'')]"
  by (simp add: affinity_sessions)

lemma fold_session_dict:
  "fold (\<lambda>(c, v) d. dict_set d c (postprocess_value (py_of_sql v)))
     (zip [''id'', ''date'', ''time_start'', ''time_end'', ''title'', ''location'',
           ''description'', ''supersession_id''] [v1, v2, v3, v4, v5, v6, v7, v8]) []
   = [(''id'', postprocess_value (py_of_sql v1)), (''date'', postprocess_value (py_of_sql v2)),
      (''time_start'', postprocess_value (py_of_sql v3)),
      (''time_end'', postprocess_value (py_of_sql v4)),
      (''title'', postprocess_value (py_of_sql v5)),
      (''location'', postprocess_value (py_of_sql v6)),
      (''description'', postprocess_value (py_of_sql v7)),
      (''supersession_id'', postprocess_value (py_of_sql v8))]"
  by simp

text \<open>The rows of sessions that a list of resolved conditions keeps.\<close>

lemma sql_select_sessions:
  assumes "sum_map (compile_cond [''sessions'']) conds = Inr rcs"
  shows "sql_select st ''sessions''
           [QCol ''sessions'' ''id'', Col ''date'', Col ''time_start'', Col ''time_end'',
            Col ''title'', Col ''location'', Col ''description'', Col ''supersession_id'']
           [] conds
         = Inr (map (\<lambda>e. map (jcell e)
                   [(''sessions'', ''id''), (''sessions'', ''date''), (''sessions'', ''time_start''),
                    (''sessions'', ''time_end''), (''sessions'', ''title''), (''sessions'', ''location''),
                    (''sessions'', ''description''), (''sessions'', ''supersession_id'')])
                 (filter (\<lambda>e. list_all (eval_cond e) rcs) (scan st ''sessions'')))"
  using assms
  by (simp add: sql_select_def catalog_sessions resolve_sessions_columns
      del: sum_map.simps resolve.simps)

lemma select_sessions:
  assumes "sum_map (compile_cond [''sessions'']) (map where_cond wher) = Inr rcs"
  shows "snd (db_table_select sessions_table st [] [] wher)
         = Inr (map session_dict
                 (filter (\<lambda>r. list_all (eval_cond (map (\<lambda>(c, v). ((''sessions'', c), v))
                                                      (row_view ''sessions'' r))) rcs)
                    (table_rows st ''sessions'')))"
proof -
  have "tbl_name sessions_table = ''sessions''" by (simp add: sessions_table_def)
  then show ?thesis
    using sql_select_sessions [OF assms, of st]
    by (simp add: db_table_select_def Let_def sessions_columns scan_def filter_map comp_def
        session_dict_def col_value_def jcell_qualified
        del: sum_map.simps resolve.simps fold_simps)
qed



lemma compile_title:
  "sum_map (compile_cond [''sessions'']) (map where_cond [(''title'', WVal (PStr v))])
     = Inr [REq (''sessions'', ''title'') (SText (strip v))]"
  by (simp add: affinity_sessions literal_for_def sql_literal_quoted)






lemma select_by_title:
  "snd (db_table_select sessions_table st [] [] [(''title'', WVal (PStr v))])
     = Inr (map session_dict (title_matches st v))"
proof -
  have "(\<lambda>r. list_all (eval_cond (map (\<lambda>(c, v). ((''sessions'', c), v)) (row_view ''sessions'' r)))
               [REq (''sessions'', ''title'') (SText (strip v))])
        = (\<lambda>r. col_value ''sessions'' r ''title'' = SText (strip v))"
    by (auto simp: fun_eq_iff jcell_qualified sql_equal_def col_value_def)
  then show ?thesis
    unfolding select_sessions [OF compile_title] by (simp add: title_matches_def)
qed



lemma empty_store_fields:
  "table_rows empty_store t = []" "sequence empty_store t = 0" "statements empty_store = []"
  by (simp_all add: empty_store_def)

lemma open_tables_eq:
  "open_tables st = (fst (open_tables st), Inr (sessions_table, speakers_table, sessions_speakers_table))"
  using open_tables_handles [of st] by (cases "open_tables st") simp

lemma primary_match_logs:
  "\<exists>q. statements (fst (primary_match st column val)) = statements st @ [q]"
  by (simp add: primary_match_def select_logs)

lemma get_all_matches_none:
  assumes "primary_match st column val = (st1, Inr [])"
  shows "get_all_matches st column val sessions_table sessions_speakers_table speakers_table
           = (st1, Inl (ValueError ''No matches found for the given query.''))"
  using assms by (simp add: get_all_matches_def primary_match_def split: if_splits)

lemma speakers_info_fields:
  "rowid_alias speakers_info = Some ''id''" "autoincrement speakers_info = True"
  "unique_keys speakers_info = [[''name'']]"
  "col_affinity speakers_info = [(''id'', AInteger), (''name'', AText)]"
  by (simp_all add: speakers_info_def)

lemma sessions_speakers_info_fields:
  "rowid_alias sessions_speakers_info = None" "autoincrement sessions_speakers_info = False"
  "unique_keys sessions_speakers_info = [[''session_id'', ''speaker_id'']]"
  "col_affinity sessions_speakers_info = [(''session_id'', AInteger), (''speaker_id'', AInteger)]"
  by (simp_all add: sessions_speakers_info_def)

lemma affinity_speakers:
  "column_affinity ''speakers'' ''id'' = Some AInteger"
  "column_affinity ''speakers'' ''name'' = Some AText"
  by (simp_all add: column_affinity_def catalog_speakers speakers_info_def)

lemma speaker_id_value: "col_value ''speakers'' r ''id'' = SInt (fst r)"
  by (simp add: col_value_def row_view_def catalog_speakers speakers_info_fields cell_def)

lemma select_speaker:
  "snd (db_table_select speakers_table st [''id''] [] [(''name'', WVal (PStr n))])
     = Inr (map (\<lambda>r. [(''id'', PInt (fst r))])
              (filter (named (strip n)) (table_rows st ''speakers'')))"
proof -
  have name: "tbl_name speakers_table = ''speakers''" by (simp add: speakers_table_def)
  have keep: "(\<lambda>r. sql_equal (jcell (map (\<lambda>(c, v). ((''speakers'', c), v)) (row_view ''speakers'' r))
                                 (''speakers'', ''name'')) (SText (strip n)))
              = named (strip n)"
    by (auto simp: fun_eq_iff jcell_qualified sql_equal_def named_def col_value_def)
  have idv: "jcell (map (\<lambda>(c, v). ((''speakers'', c), v)) (row_view ''speakers'' r)) (''speakers'', ''id'')
               = SInt (fst r)" for r
    using speaker_id_value [of r] by (simp add: jcell_qualified col_value_def)
  have "sql_select st ''speakers'' [QCol ''speakers'' ''id''] [] [CEq (Col ''name'') (quoted (PStr n))]
          = Inr (map (\<lambda>r. [SInt (fst r)]) (filter (named (strip n)) (table_rows st ''speakers'')))"
    by (simp add: sql_select_def catalog_speakers affinity_speakers literal_for_def
        sql_literal_quoted scan_def filter_map comp_def keep idv)
  then show ?thesis
    by (simp add: db_table_select_def Let_def name comp_def)
qed

lemma sql_insert_speaker:
  "sql_insert conn st ''speakers'' (assigns_of [(''name'', PStr n)])
     = insert_row conn st ''speakers'' speakers_info (speaker_cells (strip n))"
  by (simp add: sql_insert_def catalog_speakers assigns_of_def sql_literal_quoted
      speakers_info_fields speaker_cells_def)

lemma violates_name:
  "violates_key ''speakers'' rs (k, speaker_cells n) [''name''] = list_ex (named n) rs"
  by (simp add: violates_key_def named_def [abs_def] col_value_def row_view_def catalog_speakers
      speakers_info_fields speaker_cells_def cell_def)

lemma insert_speaker:
  "db_table_insert speakers_table st [(''name'', PStr n)] =
     (if list_ex (named (strip n)) (table_rows st ''speakers'')
      then (logged st (insert_text speakers_table [(''name'', PStr n)]),
            Inl (unique_failed ''speakers.name''))
      else (after_insert st (insert_text speakers_table [(''name'', PStr n)]) ''speakers''
              (speaker_cells (strip n)),
            Inr (next_id st ''speakers'')))"
proof -
  let ?st = "logged st (insert_text speakers_table [(''name'', PStr n)])"
  have fresh: "\<forall>r\<in>set (table_rows st ''speakers''). fst r < next_id st ''speakers''"
    using next_id_fresh by blast
  then have notin: "next_id st ''speakers'' \<notin> fst ` set (table_rows st ''speakers'')"
    by auto
  have nr: "new_rowid speakers_info ?st ''speakers'' = next_id st ''speakers''"
    by (simp add: new_rowid_def next_id_def speakers_info_fields)
  have seq: "max (sequence st ''speakers'') (next_id st ''speakers'') = next_id st ''speakers''"
    by (simp add: next_id_def)
  have idnull: "cell (speaker_cells (strip n)) ''id'' = SNull"
    by (simp add: speaker_cells_def cell_def)
  have "insert_row sqlite3_connect ?st ''speakers'' speakers_info (speaker_cells (strip n)) =
     (if list_ex (named (strip n)) (table_rows st ''speakers'')
      then (?st, Inl (unique_failed ''speakers.name''))
      else (after_insert st (insert_text speakers_table [(''name'', PStr n)]) ''speakers''
              (speaker_cells (strip n)),
            Inr (next_id st ''speakers'')))"
    using notin insort_fresh [OF fresh]
    by (simp add: insert_row_def Let_def nr seq idnull speakers_info_fields violates_name
        sqlite3_connect_def after_insert_def unique_failed_def)
  then show ?thesis
    by (simp add: db_table_insert_eq speakers_table_def sql_insert_speaker)
qed

lemma sql_insert_association:
  "sql_insert conn st ''sessions_speakers''
       (assigns_of [(''session_id'', PInt a), (''speaker_id'', PInt b)])
     = insert_row conn st ''sessions_speakers'' sessions_speakers_info (association_cells a b)"
  by (simp add: sql_insert_def catalog_sessions_speakers assigns_of_def sql_literal_quoted
      sessions_speakers_info_fields association_cells_def int_of_text_show)

lemma violates_pair:
  "violates_key ''sessions_speakers'' rs (k, association_cells a b) [''session_id'', ''speaker_id'']
     = list_ex (keyed a b) rs"
  by (simp add: violates_key_def keyed_def [abs_def] col_value_def row_view_def
      catalog_sessions_speakers sessions_speakers_info_fields association_cells_def cell_def)

lemma insert_association:
  "db_table_insert sessions_speakers_table st [(''session_id'', PInt a), (''speaker_id'', PInt b)] =
     (if list_ex (keyed a b) (table_rows st ''sessions_speakers'')
      then (logged st (insert_text sessions_speakers_table
                         [(''session_id'', PInt a), (''speaker_id'', PInt b)]),
            Inl (unique_failed ''sessions_speakers.session_id, sessions_speakers.speaker_id''))
      else (after_association st
              (insert_text sessions_speakers_table
                 [(''session_id'', PInt a), (''speaker_id'', PInt b)]) a b,
            Inr (max_rowid (table_rows st ''sessions_speakers'') + 1)))"
proof -
  let ?text = "insert_text sessions_speakers_table
                 [(''session_id'', PInt a), (''speaker_id'', PInt b)]"
  let ?st = "logged st ?text"
  let ?k = "max_rowid (table_rows st ''sessions_speakers'') + 1"
  have fresh: "\<forall>r\<in>set (table_rows st ''sessions_speakers''). fst r < ?k"
    using max_rowid_ge [of _ "table_rows st ''sessions_speakers''"] by fastforce
  then have notin: "?k \<notin> fst ` set (table_rows st ''sessions_speakers'')"
    by auto
  have nr: "new_rowid sessions_speakers_info ?st ''sessions_speakers'' = ?k"
    by (simp add: new_rowid_def sessions_speakers_info_fields)
  have "insert_row sqlite3_connect ?st ''sessions_speakers'' sessions_speakers_info
          (association_cells a b) =
     (if list_ex (keyed a b) (table_rows st ''sessions_speakers'')
      then (?st, Inl (unique_failed ''sessions_speakers.session_id, sessions_speakers.speaker_id''))
      else (after_association st ?text a b, Inr ?k))"
    using notin insort_fresh [OF fresh]
    by (simp add: insert_row_def Let_def nr sessions_speakers_info_fields violates_pair
        sqlite3_connect_def after_association_def unique_failed_def)
  then show ?thesis
    by (simp add: db_table_insert_eq sessions_speakers_table_def sql_insert_association)
qed

lemma strip_right_Cons:
  "rev (dropWhile P (rev (x # xs)))
     = (if \<forall>y\<in>set (x # xs). P y then [] else x # rev (dropWhile P (rev xs)))"
proof (cases "\<forall>y\<in>set xs. P y")
  case True
  then have "dropWhile P (rev xs @ [x]) = dropWhile P [x]"
    by (intro dropWhile_append2) auto
  moreover have "dropWhile P (rev xs) = []" using True by simp
  ultimately show ?thesis using True by simp
next
  case False
  then obtain y where "y \<in> set (rev xs)" "\<not> P y" by auto
  then have "dropWhile P (rev xs @ [x]) = dropWhile P (rev xs) @ [x]"
    by (rule dropWhile_append1)
  with False show ?thesis by auto
qed

lemma strip_idem: "strip (strip s) = strip s"
proof -
  let ?t = "dropWhile isspace s"
  let ?u = "rev (dropWhile isspace (rev ?t))"
  have left: "dropWhile isspace ?u = ?u"
  proof (cases ?t)
    case Nil
    show ?thesis unfolding Nil by simp
  next
    case (Cons x xs)
    then have "\<not> isspace x" using hd_dropWhile [of isspace s] by simp
    then show ?thesis unfolding Cons strip_right_Cons by auto
  qed
  have right: "dropWhile isspace (rev ?u) = rev ?u"
    by simp
  show ?thesis
    unfolding strip_def left right by simp
qed

lemma names_stripped: "\<forall>n\<in>set (speaker_names_of row). strip n = n"
  by (auto simp: speaker_names_of_def strip_idem)

lemma select_speaker_eq:
  "db_table_select speakers_table st [''id''] [] [(''name'', WVal (PStr n))]
     = (logged st (select_text speakers_table [''id''] [] [(''name'', WVal (PStr n))]),
        Inr (map (\<lambda>r. [(''id'', PInt (fst r))])
               (filter (named (strip n)) (table_rows st ''speakers''))))"
  using select_logs [of speakers_table st "[''id'']" "[]" "[(''name'', WVal (PStr n))]"]
    select_speaker [of st n]
  by (cases "db_table_select speakers_table st [''id''] [] [(''name'', WVal (PStr n))]") simp

lemma names_loop_fold:
  assumes "index < length sids" and "\<forall>n\<in>set names. strip n = n"
  shows "names_loop speakers_table sids index st ss d names =
           (fst (fold resolve_name names (st, d)),
            Inr (ss @ map (Pair (sids ! index)) names, snd (fold resolve_name names (st, d))))"
  using assms
proof (induction names arbitrary: st ss d)
  case Nil
  show ?case by simp
next
  case (Cons n names)
  have n: "strip n = n" and rest: "\<forall>m\<in>set names. strip m = m"
    using Cons.prems by simp_all
  note IH = Cons.IH [OF Cons.prems(1) rest]
  let ?q = "select_text speakers_table [''id''] [] [(''name'', WVal (PStr n))]"
  show ?case
  proof (cases "filter (named n) (table_rows st ''speakers'')")
    case Nil
    then have none: "\<not> list_ex (named n) (table_rows st ''speakers'')"
      by (simp add: list_ex_iff filter_empty_conv)
    have step: "resolve_name n (st, d) =
        (after_insert (logged st ?q) (insert_text speakers_table [(''name'', PStr n)])
           ''speakers'' (speaker_cells n), dict_set d n (PInt (next_id st ''speakers'')))"
      using Nil by (simp add: resolve_name_def)
    show ?thesis
      using Cons.prems(1) Nil none
      by (simp add: select_speaker_eq n insert_speaker IH step)
  next
    case (Cons r more)
    have step: "resolve_name n (st, d) = (logged st ?q, dict_set d n (PInt (fst r)))"
      using Cons by (simp add: resolve_name_def)
    show ?thesis
      using Cons.prems(1) Cons
      by (simp add: select_speaker_eq n dict_get_def IH step)
  qed
qed

lemma map_snd_Pair: "map (snd \<circ> Pair x) ys = ys"
  by (induction ys) simp_all

lemma speakers_loop_fold:
  assumes "index + length rows \<le> length sids"
  shows "speakers_loop speakers_table sids index st ss d rows =
           (fst (fold resolve_name (map snd (pending sids index rows)) (st, d)),
            Inr (ss @ pending sids index rows,
                 snd (fold resolve_name (map snd (pending sids index rows)) (st, d))))"
  using assms
proof (induction rows arbitrary: index st ss d)
  case Nil
  show ?case by simp
next
  case (Cons row rows)
  have index: "index < length sids" and rest: "Suc index + length rows \<le> length sids"
    using Cons.prems by simp_all
  note IH = Cons.IH [OF rest]
  show ?case
  proof (cases "isna (row ''speakers'')")
    case True
    then show ?thesis by (simp add: IH)
  next
    case False
    let ?names = "speaker_names_of row"
    have loop: "names_loop speakers_table sids index st ss d ?names =
           (fst (fold resolve_name ?names (st, d)),
            Inr (ss @ map (Pair (sids ! index)) ?names, snd (fold resolve_name ?names (st, d))))"
      by (rule names_loop_fold [OF index names_stripped])
    show ?thesis
      using False loop
      by (simp add: IH map_snd_Pair speaker_names_of_def [symmetric])
  qed
qed

lemma named_speaker_cells: "named n (k, speaker_cells m) = (n = m)"
  by (auto simp: named_def col_value_def row_view_def catalog_speakers speakers_info_fields
      speaker_cells_def cell_def)

lemma resolve_name_rows:
  "table_rows (fst (resolve_name n (st, d))) =
     (if list_ex (named n) (table_rows st ''speakers'') then table_rows st
      else (table_rows st)(''speakers'' :=
             table_rows st ''speakers'' @ [(next_id st ''speakers'', speaker_cells n)]))"
proof (cases "filter (named n) (table_rows st ''speakers'')")
  case Nil
  then have "\<not> list_ex (named n) (table_rows st ''speakers'')"
    by (simp add: list_ex_iff filter_empty_conv)
  with Nil show ?thesis by (simp add: resolve_name_def)
next
  case (Cons r rest)
  then have "r \<in> set (filter (named n) (table_rows st ''speakers''))" by simp
  then have "list_ex (named n) (table_rows st ''speakers'')"
    by (auto simp: list_ex_iff)
  with Cons show ?thesis by (simp add: resolve_name_def)
qed

lemma resolve_name_frame:
  "t \<noteq> ''speakers'' \<Longrightarrow> table_rows (fst (resolve_name n (st, d))) t = table_rows st t"
  by (simp add: resolve_name_rows)

lemma resolve_name_grows:
  "\<exists>new. table_rows (fst (resolve_name n (st, d))) ''speakers'' = table_rows st ''speakers'' @ new"
  by (simp add: resolve_name_rows)

lemma resolve_name_count:
  "count_named m (table_rows (fst (resolve_name n (st, d))) ''speakers'') =
     (if m = n then max 1 (count_named n (table_rows st ''speakers''))
      else count_named m (table_rows st ''speakers''))"
proof (cases "list_ex (named n) (table_rows st ''speakers'')")
  case True
  then have "filter (named n) (table_rows st ''speakers'') \<noteq> []"
    by (auto simp: list_ex_iff filter_empty_conv)
  then have "1 \<le> count_named n (table_rows st ''speakers'')"
    by (cases "filter (named n) (table_rows st ''speakers'')") (simp_all add: count_named_def)
  with True show ?thesis by (simp add: resolve_name_rows max_def)
next
  case False
  then have "filter (named n) (table_rows st ''speakers'') = []"
    by (auto simp: list_ex_iff filter_empty_conv)
  with False show ?thesis
    by (simp add: resolve_name_rows count_named_def named_speaker_cells)
qed

lemma resolve_name_keys:
  "set (map fst (snd (resolve_name n (st, d)))) = insert n (set (map fst d))"
  using dict_set_keys [of d n]
  by (cases "filter (named n) (table_rows st ''speakers'')")
     (simp_all add: resolve_name_def)

lemma resolve_name_agrees:
  assumes "agrees d (table_rows st ''speakers'')"
  shows "agrees (snd (resolve_name n (st, d))) (table_rows (fst (resolve_name n (st, d))) ''speakers'')"
proof (cases "filter (named n) (table_rows st ''speakers'')")
  case Nil
  then have none: "\<not> list_ex (named n) (table_rows st ''speakers'')"
    by (simp add: list_ex_iff filter_empty_conv)
  have d': "snd (resolve_name n (st, d)) = dict_set d n (PInt (next_id st ''speakers''))"
    using Nil by (simp add: resolve_name_def)
  show ?thesis
    unfolding agrees_def d'
  proof (intro allI impI)
    fix m v
    assume look: "map_of (dict_set d n (PInt (next_id st ''speakers''))) m = Some v"
    show "\<exists>r rest. filter (named m) (table_rows (fst (resolve_name n (st, d))) ''speakers'')
                      = r # rest \<and> v = PInt (fst r)"
    proof (cases "m = n")
      case True
      with look Nil none show ?thesis
        by (simp add: resolve_name_rows map_of_dict_set named_speaker_cells)
    next
      case False
      with look have "map_of d m = Some v" by (simp add: map_of_dict_set)
      with assms obtain r rest where
        "filter (named m) (table_rows st ''speakers'') = r # rest" "v = PInt (fst r)"
        unfolding agrees_def by blast
      with False none show ?thesis
        by (simp add: resolve_name_rows named_speaker_cells)
    qed
  qed
next
  case (Cons r0 rest0)
  then have "r0 \<in> set (filter (named n) (table_rows st ''speakers''))" by simp
  then have some: "list_ex (named n) (table_rows st ''speakers'')"
    by (auto simp: list_ex_iff)
  have d': "snd (resolve_name n (st, d)) = dict_set d n (PInt (fst r0))"
    using Cons by (simp add: resolve_name_def)
  show ?thesis
    unfolding agrees_def d'
  proof (intro allI impI)
    fix m v
    assume look: "map_of (dict_set d n (PInt (fst r0))) m = Some v"
    show "\<exists>r rest. filter (named m) (table_rows (fst (resolve_name n (st, d))) ''speakers'')
                      = r # rest \<and> v = PInt (fst r)"
    proof (cases "m = n")
      case True
      with look Cons some show ?thesis
        by (simp add: resolve_name_rows map_of_dict_set)
    next
      case False
      with look have "map_of d m = Some v" by (simp add: map_of_dict_set)
      with assms some show ?thesis
        by (auto simp: agrees_def resolve_name_rows)
    qed
  qed
qed

text \<open>The same facts for a whole list of names.\<close>

lemma fold_resolve_frame:
  "t \<noteq> ''speakers'' \<Longrightarrow>
     table_rows (fst (fold resolve_name names (st, d))) t = table_rows st t"
proof (induction names arbitrary: st d)
  case Nil
  show ?case by simp
next
  case (Cons n names)
  obtain st1 d1 where step: "resolve_name n (st, d) = (st1, d1)"
    by (cases "resolve_name n (st, d)") auto
  have "table_rows st1 t = table_rows st t"
    using resolve_name_frame [OF Cons.prems, of n st d] step by simp
  with Cons.IH [OF Cons.prems, of st1 d1] step show ?case by simp
qed

lemma fold_resolve_grows:
  "\<exists>new. table_rows (fst (fold resolve_name names (st, d))) ''speakers''
            = table_rows st ''speakers'' @ new"
proof (induction names arbitrary: st d)
  case Nil
  show ?case by simp
next
  case (Cons n names)
  obtain st1 d1 where step: "resolve_name n (st, d) = (st1, d1)"
    by (cases "resolve_name n (st, d)") auto
  obtain new1 where "table_rows st1 ''speakers'' = table_rows st ''speakers'' @ new1"
    using resolve_name_grows [of n st d] step by auto
  moreover obtain new2 where
    "table_rows (fst (fold resolve_name names (st1, d1))) ''speakers''
       = table_rows st1 ''speakers'' @ new2"
    using Cons.IH [of st1 d1] by auto
  ultimately show ?case using step by simp
qed

lemma fold_resolve_count:
  "count_named m (table_rows (fst (fold resolve_name names (st, d))) ''speakers'') =
     (if m \<in> set names then max 1 (count_named m (table_rows st ''speakers''))
      else count_named m (table_rows st ''speakers''))"
proof (induction names arbitrary: st d)
  case Nil
  show ?case by simp
next
  case (Cons n names)
  obtain st1 d1 where step: "resolve_name n (st, d) = (st1, d1)"
    by (cases "resolve_name n (st, d)") auto
  have one: "count_named m (table_rows st1 ''speakers'') =
     (if m = n then max 1 (count_named n (table_rows st ''speakers''))
      else count_named m (table_rows st ''speakers''))"
    using resolve_name_count [of m n st d] step by simp
  show ?case
    using Cons.IH [of st1 d1] one step by (auto simp: max_def split: if_splits)
qed

lemma fold_resolve_keys:
  "set (map fst (snd (fold resolve_name names (st, d)))) = set (map fst d) \<union> set names"
proof (induction names arbitrary: st d)
  case Nil
  show ?case by simp
next
  case (Cons n names)
  obtain st1 d1 where step: "resolve_name n (st, d) = (st1, d1)"
    by (cases "resolve_name n (st, d)") auto
  have "set (map fst d1) = insert n (set (map fst d))"
    using resolve_name_keys [of n st d] step by simp
  with Cons.IH [of st1 d1] step show ?case by auto
qed

lemma fold_resolve_agrees:
  "agrees d (table_rows st ''speakers'') \<Longrightarrow>
     agrees (snd (fold resolve_name names (st, d)))
       (table_rows (fst (fold resolve_name names (st, d))) ''speakers'')"
proof (induction names arbitrary: st d)
  case Nil
  then show ?case by simp
next
  case (Cons n names)
  obtain st1 d1 where step: "resolve_name n (st, d) = (st1, d1)"
    by (cases "resolve_name n (st, d)") auto
  have "agrees d1 (table_rows st1 ''speakers'')"
    using resolve_name_agrees [OF Cons.prems, of n] step by simp
  from Cons.IH [OF this] step show ?case by simp
qed

lemma agrees_empty: "agrees [] rs"
  by (simp add: agrees_def)

lemma after_association_rows [simp]:
  "table_rows (after_association st text a b) =
     (table_rows st)(''sessions_speakers'' := table_rows st ''sessions_speakers''
        @ [(max_rowid (table_rows st ''sessions_speakers'') + 1, association_cells a b)])"
  by (simp add: after_association_def)

lemma associations_loop_run:
  assumes "\<forall>sn\<in>set pairs. \<exists>p. map_of d (snd sn) = Some (PInt p)"
  shows "\<exists>st'. associations_loop sessions_speakers_table d st pairs =
            (st', if snd (association_rows (table_rows st ''sessions_speakers'') (resolved d pairs))
                  then Inr () else Inl pair_failed)
          \<and> table_rows st' = (table_rows st)(''sessions_speakers'' :=
               fst (association_rows (table_rows st ''sessions_speakers'') (resolved d pairs)))"
  using assms
proof (induction pairs arbitrary: st)
  case Nil
  show ?case by (simp add: resolved_def)
next
  case (Cons sn pairs)
  obtain sid n where sn: "sn = (sid, n)" by (cases sn) auto
  obtain p where p: "map_of d n = Some (PInt p)"
    using Cons.prems sn by auto
  have rest: "\<forall>sn\<in>set pairs. \<exists>p. map_of d (snd sn) = Some (PInt p)"
    using Cons.prems by simp
  have get: "dict_get d n = Inr (PInt p)" using p by (simp add: dict_get_def)
  have int: "speaker_int d n = p" using p by (simp add: speaker_int_def)
  let ?rs = "table_rows st ''sessions_speakers''"
  let ?text = "insert_text sessions_speakers_table [(''session_id'', PInt sid), (''speaker_id'', PInt p)]"
  show ?case
  proof (cases "list_ex (keyed sid p) ?rs")
    case True
    then show ?thesis
      unfolding sn
      by (simp add: get insert_association resolved_def int pair_failed_def fun_eq_iff)
  next
    case False
    let ?st1 = "after_association st ?text sid p"
    obtain st' where
      run: "associations_loop sessions_speakers_table d ?st1 pairs =
            (st', if snd (association_rows (table_rows ?st1 ''sessions_speakers'') (resolved d pairs))
                  then Inr () else Inl pair_failed)"
      and tbl: "table_rows st' = (table_rows ?st1)(''sessions_speakers'' :=
               fst (association_rows (table_rows ?st1 ''sessions_speakers'') (resolved d pairs)))"
      using Cons.IH [OF rest, of ?st1] by blast
    show ?thesis
      unfolding sn using False run tbl
      by (simp add: get insert_association resolved_def int fun_eq_iff)
  qed
qed

lemma keyed_association_cells: "keyed a b (k, association_cells a' b') = (a = a' \<and> b = b')"
  by (auto simp: keyed_def col_value_def row_view_def catalog_sessions_speakers
      sessions_speakers_info_fields association_cells_def cell_def)

lemma association_present_fails:
  "list_ex (keyed a b) rs \<Longrightarrow> (a, b) \<in> set ps \<Longrightarrow> \<not> snd (association_rows rs ps)"
proof (induction ps arbitrary: rs)
  case Nil
  then show ?case by simp
next
  case (Cons ab ps)
  show ?case
  proof (cases "list_ex (keyed (fst ab) (snd ab)) rs")
    case True
    then show ?thesis by simp
  next
    case False
    with Cons.prems have "ab \<noteq> (a, b)" by auto
    with Cons.prems have mem: "(a, b) \<in> set ps" by auto
    have "list_ex (keyed a b) (rs @ [(max_rowid rs + 1, association_cells (fst ab) (snd ab))])"
      using Cons.prems(1) by (simp add: list_ex_iff)
    from Cons.IH [OF this mem] False show ?thesis by simp
  qed
qed

lemma association_duplicate_fails:
  "\<not> distinct ps \<Longrightarrow> \<not> snd (association_rows rs ps)"
proof (induction ps arbitrary: rs)
  case Nil
  then show ?case by simp
next
  case (Cons ab ps)
  show ?case
  proof (cases "list_ex (keyed (fst ab) (snd ab)) rs")
    case True
    then show ?thesis by simp
  next
    case False
    let ?rs = "rs @ [(max_rowid rs + 1, association_cells (fst ab) (snd ab))]"
    show ?thesis
    proof (cases "ab \<in> set ps")
      case True
      have "list_ex (keyed (fst ab) (snd ab)) ?rs"
        by (simp add: list_ex_iff keyed_association_cells)
      moreover have "(fst ab, snd ab) \<in> set ps" using True by simp
      ultimately have "\<not> snd (association_rows ?rs ps)"
        by (rule association_present_fails)
      with False show ?thesis by simp
    next
      case notin: False
      with Cons.prems have "\<not> distinct ps" by simp
      from Cons.IH [OF this] False show ?thesis by simp
    qed
  qed
qed

lemma association_count:
  "snd (association_rows rs ps) \<Longrightarrow>
     length (filter (keyed a b) (fst (association_rows rs ps)))
       = length (filter (keyed a b) rs) + (if (a, b) \<in> set ps then 1 else 0)"
proof (induction ps arbitrary: rs)
  case Nil
  show ?case by simp
next
  case (Cons ab ps)
  let ?rs = "rs @ [(max_rowid rs + 1, association_cells (fst ab) (snd ab))]"
  have free: "\<not> list_ex (keyed (fst ab) (snd ab)) rs"
    using Cons.prems by (auto split: if_splits)
  then have ok: "snd (association_rows ?rs ps)"
    using Cons.prems by simp
  have later: "(a, b) \<notin> set ps" if "ab = (a, b)"
  proof
    assume "(a, b) \<in> set ps"
    moreover have "list_ex (keyed a b) ?rs"
      using that by (simp add: list_ex_iff keyed_association_cells)
    ultimately show False using association_present_fails ok by blast
  qed
  have "length (filter (keyed a b) (fst (association_rows ?rs ps)))
          = length (filter (keyed a b) ?rs) + (if (a, b) \<in> set ps then 1 else 0)"
    by (rule Cons.IH [OF ok])
  then show ?case
    using free later by (cases ab) (auto simp: keyed_association_cells)
qed

lemma association_once:
  assumes "snd (association_rows rs ps)" and "(a, b) \<in> set ps"
  shows "length (filter (keyed a b) (fst (association_rows rs ps))) = 1"
proof -
  have "\<not> list_ex (keyed a b) rs"
    using association_present_fails assms by blast
  then have "filter (keyed a b) rs = []"
    by (auto simp: list_ex_iff filter_empty_conv)
  with association_count [OF assms(1), of a b] assms(2) show ?thesis by simp
qed

lemma association_prefix:
  "\<exists>new. fst (association_rows rs ps) = rs @ new \<and> length new \<le> length ps
          \<and> (\<not> snd (association_rows rs ps) \<longrightarrow> length new < length ps)"
proof (induction ps arbitrary: rs)
  case Nil
  show ?case by simp
next
  case (Cons ab ps)
  show ?case
  proof (cases "list_ex (keyed (fst ab) (snd ab)) rs")
    case True
    then show ?thesis by simp
  next
    case False
    let ?row = "(max_rowid rs + 1, association_cells (fst ab) (snd ab))"
    obtain new where "fst (association_rows (rs @ [?row]) ps) = (rs @ [?row]) @ new"
      "length new \<le> length ps"
      "\<not> snd (association_rows (rs @ [?row]) ps) \<longrightarrow> length new < length ps"
      using Cons.IH [of "rs @ [?row]"] by blast
    with False show ?thesis
      by (intro exI [of _ "?row # new"]) simp
  qed
qed

lemma resolved_lookup:
  assumes "sn \<in> set (pending sids 0 rows)"
  shows "\<exists>r rest. filter (named (snd sn)) (table_rows (fst (resolved_store st sids rows)) ''speakers'')
                     = r # rest
                 \<and> map_of (snd (resolved_store st sids rows)) (snd sn) = Some (PInt (fst r))"
proof -
  let ?d = "snd (resolved_store st sids rows)"
  have "snd sn \<in> set (map fst ?d)"
    using assms fold_resolve_keys [of "map snd (pending sids 0 rows)" st "[]"]
    by (auto simp: resolved_store_def)
  then obtain v where v: "map_of ?d (snd sn) = Some v"
    by (cases "map_of ?d (snd sn)") (auto simp: map_of_eq_None_iff)
  have "agrees ?d (table_rows (fst (resolved_store st sids rows)) ''speakers'')"
    unfolding resolved_store_def by (rule fold_resolve_agrees [OF agrees_empty])
  with v show ?thesis unfolding agrees_def by blast
qed

lemma process_speaker_data_run:
  assumes "length rows \<le> length sids"
  shows "\<exists>st'. process_speaker_data st rows sids speakers_table sessions_speakers_table =
            (st', if snd (association_rows
                            (table_rows st ''sessions_speakers'')
                            (resolved (snd (resolved_store st sids rows)) (pending sids 0 rows)))
                  then Inr () else Inl pair_failed)
          \<and> table_rows st' = (table_rows (fst (resolved_store st sids rows)))
               (''sessions_speakers'' :=
                  fst (association_rows (table_rows st ''sessions_speakers'')
                         (resolved (snd (resolved_store st sids rows)) (pending sids 0 rows))))"
proof -
  let ?sd = "resolved_store st sids rows"
  have loop: "speakers_loop speakers_table sids 0 st [] [] rows
                = (fst ?sd, Inr (pending sids 0 rows, snd ?sd))"
    using speakers_loop_fold [of 0 rows sids st "[]" "[]"] assms
    by (simp add: resolved_store_def)
  have known: "\<forall>sn\<in>set (pending sids 0 rows). \<exists>p. map_of (snd ?sd) (snd sn) = Some (PInt p)"
    using resolved_lookup [of _ sids rows st] by blast
  have same: "table_rows (fst ?sd) ''sessions_speakers'' = table_rows st ''sessions_speakers''"
    unfolding resolved_store_def by (rule fold_resolve_frame) simp
  show ?thesis
    using associations_loop_run [OF known, of "fst ?sd"] loop same
    by (simp add: process_speaker_data_def)
qed

lemma pending_append:
  "pending sids index (xs @ ys) = pending sids index xs @ pending sids (index + length xs) ys"
  by (induction xs arbitrary: index) simp_all

lemma pending_row:
  assumes "i < length rows" and "\<not> isna ((rows ! i) ''speakers'')"
  shows "pending sids 0 rows =
           pending sids 0 (take i rows) @ map (Pair (sids ! i)) (speaker_names_of (rows ! i))
             @ pending sids (Suc i) (drop (Suc i) rows)"
proof -
  have "rows = take i rows @ rows ! i # drop (Suc i) rows"
    using assms(1) by (simp add: id_take_nth_drop)
  then have "pending sids 0 rows = pending sids 0 (take i rows @ rows ! i # drop (Suc i) rows)"
    by simp
  also have "\<dots> = pending sids 0 (take i rows)
                     @ pending sids i (rows ! i # drop (Suc i) rows)"
    using assms(1) by (simp add: pending_append min_def)
  finally show ?thesis using assms(2) by simp
qed

lemma pending_mem:
  assumes "i < length rows" and "\<not> isna ((rows ! i) ''speakers'')"
    and "n \<in> set (speaker_names_of (rows ! i))"
  shows "(sids ! i, n) \<in> set (pending sids 0 rows)"
  unfolding pending_row [OF assms(1,2)] using assms(3) by auto

lemma pending_two_rows:
  assumes "i < j" and "j < length rows"
    and "\<not> isna ((rows ! i) ''speakers'')" and "\<not> isna ((rows ! j) ''speakers'')"
    and "n \<in> set (speaker_names_of (rows ! i))" and "n \<in> set (speaker_names_of (rows ! j))"
    and "sids ! i = sids ! j"
  shows "\<not> distinct (pending sids 0 rows)"
proof -
  have "i < length (take j rows)" using assms(1,2) by simp
  moreover have "take j rows ! i = rows ! i" using assms(1) by simp
  ultimately have "(sids ! i, n) \<in> set (pending sids 0 (take j rows))"
    using pending_mem [of i "take j rows" n sids] assms(3,5) by simp
  moreover have "(sids ! j, n) \<in> set (map (Pair (sids ! j)) (speaker_names_of (rows ! j)))"
    using assms(6) by simp
  ultimately show ?thesis
    unfolding pending_row [OF assms(2,4)] using assms(7) by auto
qed

lemma resolved_not_distinct:
  "\<not> distinct pairs \<Longrightarrow> \<not> distinct (resolved d pairs)"
  unfolding resolved_def by (metis distinct_map)

lemma resolved_mem:
  "(sid, n) \<in> set pairs \<Longrightarrow> (sid, speaker_int d n) \<in> set (resolved d pairs)"
  unfolding resolved_def by force

lemma open_tables_sequence: "sequence (fst (open_tables st)) = sequence st"
  by (simp add: open_tables_def db_table_init_def create_table_def logged_def Let_def)

lemma association_prefix_keyed:
  "\<exists>new. fst (association_rows rs ps) = rs @ new \<and> length new \<le> length ps
          \<and> (\<not> snd (association_rows rs ps) \<longrightarrow> length new < length ps)
          \<and> (\<forall>m<length new. keyed (fst (ps ! m)) (snd (ps ! m)) (new ! m))"
proof (induction ps arbitrary: rs)
  case Nil
  show ?case by simp
next
  case (Cons ab ps)
  show ?case
  proof (cases "list_ex (keyed (fst ab) (snd ab)) rs")
    case True
    then show ?thesis by simp
  next
    case False
    let ?row = "(max_rowid rs + 1, association_cells (fst ab) (snd ab))"
    obtain new where new: "fst (association_rows (rs @ [?row]) ps) = (rs @ [?row]) @ new"
      "length new \<le> length ps"
      "\<not> snd (association_rows (rs @ [?row]) ps) \<longrightarrow> length new < length ps"
      "\<forall>m<length new. keyed (fst (ps ! m)) (snd (ps ! m)) (new ! m)"
      using Cons.IH [of "rs @ [?row]"] by blast
    have "\<forall>m<length (?row # new). keyed (fst ((ab # ps) ! m)) (snd ((ab # ps) ! m)) ((?row # new) ! m)"
    proof (intro allI impI)
      fix m assume "m < length (?row # new)"
      then show "keyed (fst ((ab # ps) ! m)) (snd ((ab # ps) ! m)) ((?row # new) ! m)"
        using new(4) by (cases m) (simp_all add: keyed_association_cells)
    qed
    with new False show ?thesis
      by (intro exI [of _ "?row # new"]) simp
  qed
qed

section \<open>The claims\<close>

text \<open>
  C8. For a text \<open>x\<close> without two apostrophes in a row, decoding the encoded text gives
  \<open>x.strip()\<close>; on a value that is not text, both \<open>preprocess_value\<close> and
  \<open>postprocess_value\<close> are the identity.
\<close>

theorem codec_contract:
  "(\<not> has_doubled_apostrophe x \<longrightarrow>
      postprocess_value (preprocess_value (PStr x)) = PStr (strip x))
   \<and> (\<not> is_str v \<longrightarrow> preprocess_value v = v \<and> postprocess_value v = v)"
  using decode_encode [of x] by (cases v) simp_all

theorem codec_contract_witness:
  "\<not> has_doubled_apostrophe ('' Achilles'' @ [apos] @ '' Heel '')
   \<and> postprocess_value (preprocess_value (PStr ('' Achilles'' @ [apos] @ '' Heel '')))
       = PStr (''Achilles'' @ [apos] @ '' Heel'')
   \<and> \<not> is_str (PInt 42) \<and> preprocess_value (PInt 42) = PInt 42
   \<and> postprocess_value (PInt 42) = PInt 42"
  using codec_contract [of "'' Achilles'' @ [apos] @ '' Heel ''" "PInt 42"]
  by (simp add: strip_def isspace_def)

text \<open>
  C10. The round trip needs no side condition: for every text \<open>x\<close>, decoding the encoded
  text gives \<open>x.strip()\<close>. Encoding turns a run of \<open>k\<close> apostrophes into \<open>2 * k\<close> of them,
  and the pairwise replacement of decoding turns it back into \<open>k\<close>.
\<close>

theorem codec_roundtrip_every_string:
  "postprocess_value (preprocess_value (PStr x)) = PStr (strip x)
   \<and> str_replace [apos] [apos, apos] (replicate k apos) = replicate (2 * k) apos
   \<and> str_replace [apos, apos] [apos] (replicate (2 * k) apos) = replicate k apos"
proof -
  have "str_replace [apos, apos] [apos] (double_apos (replicate k apos)) = replicate k apos"
    by (rule replace_double)
  then have "str_replace [apos, apos] [apos] (replicate (2 * k) apos) = replicate k apos"
    by (simp only: double_apos_run)
  moreover have "str_replace [apos] [apos, apos] (replicate k apos) = replicate (2 * k) apos"
    by (simp only: replace_single double_apos_run)
  ultimately show ?thesis
    using decode_encode [of x] by blast
qed

text \<open>
  C1. In an input whose row \<open>k\<close> has session type Session and whose following rows up to
  some point are of any type but Session, every such row of type Sub is stored with a
  \<open>supersession_id\<close> equal to the id assigned to row \<open>k\<close>: a Sub row links to the most
  recent Session row before it, and rows of other types leave the tracked id alone. The
  import of the sessions succeeds whenever every row has a payload to insert.
\<close>

theorem supersession_linkage:
  assumes payload: "\<forall>row\<in>set (pre @ parent # rest @ post). has_payload row"
    and parent: "parent ''session_type'' = PStr ''Session''"
    and rest: "\<forall>row\<in>set rest. row ''session_type'' \<noteq> PStr ''Session''"
    and i: "i < length rest"
    and sub: "(rest ! i) ''session_type'' = PStr ''Sub''"
  shows "\<exists>st' ids.
           process_session_data st (pre @ parent # rest @ post) sessions_table = (st', Inr ids)
           \<and> length ids = length (pre @ parent # rest @ post)
           \<and> (\<exists>r\<in>set (table_rows st' ''sessions''). fst r = ids ! (length pre + 1 + i))
           \<and> (\<forall>r\<in>set (table_rows st' ''sessions'').
                 fst r = ids ! (length pre + 1 + i) \<longrightarrow>
                 cell (row_view ''sessions'' r) ''supersession_id'' = SInt (ids ! length pre))"
proof -
  let ?rows = "pre @ parent # rest @ post"
  let ?n = "next_id st ''sessions''"
  let ?new = "session_rows ?n PNone ?rows"
  let ?j = "length pre + 1 + i"
  obtain st' where
    run: "process_session_data st ?rows sessions_table = (st', Inr (map fst ?new))"
    and tbl: "table_rows st' ''sessions'' = table_rows st ''sessions'' @ ?new"
    using session_loop_run [OF payload, of st PNone "[]"]
    by (auto simp: process_session_data_def)
  have j: "?j < length ?rows" using i by simp
  have k: "length pre < length ?rows" by simp
  have take_j: "take ?j ?rows = (pre @ [parent]) @ take i rest"
    using i by simp
  have "tracked ?n PNone (take ?j ?rows) =
          tracked (?n + int (length (pre @ [parent]))) (tracked ?n PNone (pre @ [parent])) (take i rest)"
    unfolding take_j by (rule tracked_append)
  also have "\<dots> = tracked ?n PNone (pre @ [parent])"
    by (rule tracked_no_session) (use rest in \<open>auto dest: in_set_takeD\<close>)
  also have "\<dots> = PInt (?n + int (length pre))"
    using parent by (simp add: tracked_append)
  finally have tr: "tracked ?n PNone (take ?j ?rows) = PInt (?n + int (length pre))" .
  have rows_j: "?rows ! ?j = rest ! i"
    using i by (simp add: nth_append)
  have new_j: "?new ! ?j = (?n + int ?j,
                  sessions_cells (session_data_of (rest ! i) (PInt (?n + int (length pre)))))"
    using nth_session_rows [OF j, of ?n PNone] tr rows_j by simp
  have fst_new: "fst (?new ! m) = ?n + int m" if "m < length ?rows" for m
    using nth_session_rows [OF that, of ?n PNone] by simp
  have id_j: "map fst ?new ! ?j = ?n + int ?j"
    using j fst_new [OF j] by (simp del: session_rows.simps)
  have id_k: "map fst ?new ! length pre = ?n + int (length pre)"
    using k fst_new [OF k] by (simp del: session_rows.simps)
  have mem: "?new ! ?j \<in> set (table_rows st' ''sessions'')"
    using j tbl by (simp del: session_rows.simps)
  have only: "r = ?new ! ?j"
    if r: "r \<in> set (table_rows st' ''sessions'')" and fr: "fst r = ?n + int ?j" for r
  proof -
    from r tbl have "r \<in> set (table_rows st ''sessions'') \<or> r \<in> set ?new" by simp
    then show ?thesis
    proof
      assume "r \<in> set (table_rows st ''sessions'')"
      then have "fst r < ?n" by (rule next_id_fresh)
      with fr show ?thesis by simp
    next
      assume "r \<in> set ?new"
      then obtain m where m: "m < length ?rows" and rm: "r = ?new ! m"
        by (auto simp: in_set_conv_nth simp del: session_rows.simps)
      with fst_new [OF m] fr have "m = ?j" by simp
      with rm show ?thesis by simp
    qed
  qed
  have link: "cell (row_view ''sessions'' (?new ! ?j)) ''supersession_id''
                = SInt (?n + int (length pre))"
    unfolding new_j using sub by (rule supersession_cell [of "rest ! i"])
  show ?thesis
  proof (intro exI conjI)
    show "process_session_data st ?rows sessions_table = (st', Inr (map fst ?new))"
      by (rule run)
    show "length (map fst ?new) = length ?rows" by simp
    show "\<exists>r\<in>set (table_rows st' ''sessions''). fst r = map fst ?new ! ?j"
      using mem id_j fst_new [OF j] by (intro bexI [of _ "?new ! ?j"]) simp_all
    show "\<forall>r\<in>set (table_rows st' ''sessions'').
            fst r = map fst ?new ! ?j \<longrightarrow>
            cell (row_view ''sessions'' r) ''supersession_id'' = SInt (map fst ?new ! length pre)"
      using only link id_j id_k by auto
  qed
qed

theorem supersession_linkage_witness:
  "\<exists>st' ids.
     process_session_data empty_store
       [agenda_row ''Session'' ''Keynote'' PNone, agenda_row ''Sub'' ''Part 1'' PNone,
        agenda_row ''Break'' ''Coffee'' PNone, agenda_row ''Sub'' ''Part 2'' PNone]
       sessions_table = (st', Inr ids)
     \<and> length ids = 4
     \<and> (\<exists>r\<in>set (table_rows st' ''sessions''). fst r = ids ! 3)
     \<and> (\<forall>r\<in>set (table_rows st' ''sessions'').
           fst r = ids ! 3 \<longrightarrow>
           cell (row_view ''sessions'' r) ''supersession_id'' = SInt (ids ! 0))"
  using supersession_linkage [of "[]" "agenda_row ''Session'' ''Keynote'' PNone"
      "[agenda_row ''Sub'' ''Part 1'' PNone, agenda_row ''Break'' ''Coffee'' PNone,
        agenda_row ''Sub'' ''Part 2'' PNone]" "[]" 2 empty_store]
  by (simp add: has_payload_def agenda_row_def SESSIONS_COLUMNS_def notna_def eval_nat_numeral)



text \<open>
  C7. When the primary select of a lookup returns no session, \<open>get_all_matches\<close> raises the
  no-matches error in the store that the primary select left: one statement was executed
  after the tables were opened, so neither the subsession select nor a speaker select ran.
  The entry point prints the error line and no display record, and exits with status 1.
\<close>

theorem no_match_lookup:
  assumes valid: "validate_query args = Inr ()"
    and none: "primary_match (fst (open_tables st)) (args ! 1) (PStr (join '' '' (drop 2 args)))
                 = (st1, Inr [])"
  shows "get_all_matches (fst (open_tables st)) (args ! 1) (PStr (join '' '' (drop 2 args)))
           sessions_table sessions_speakers_table speakers_table
           = (st1, Inl (ValueError ''No matches found for the given query.''))
         \<and> (\<exists>q. statements st1 = statements (fst (open_tables st)) @ [q])
         \<and> lookup_main args st
             = (st1, \<lparr>stdout = [''Error occured: No matches found for the given query.''],
                      exit_status = 1\<rparr>)"
proof -
  have raised: "get_all_matches (fst (open_tables st)) (args ! 1) (PStr (join '' '' (drop 2 args)))
           sessions_table sessions_speakers_table speakers_table
           = (st1, Inl (ValueError ''No matches found for the given query.''))"
    by (rule get_all_matches_none [OF none])
  have one: "\<exists>q. statements st1 = statements (fst (open_tables st)) @ [q]"
    using primary_match_logs [of "fst (open_tables st)" "args ! 1" "PStr (join '' '' (drop 2 args))"]
      none by simp
  obtain st0 where opened: "open_tables st
        = (st0, Inr (sessions_table, speakers_table, sessions_speakers_table))"
    and st0: "st0 = fst (open_tables st)"
    using open_tables_eq [of st] by blast
  have "lookup_body args st = (st1, [], Inl (ValueError ''No matches found for the given query.''))"
    using valid raised [folded st0] opened
    by (simp add: lookup_body_def Let_def)
  then have "lookup_main args st
      = (st1, \<lparr>stdout = [''Error occured: No matches found for the given query.''],
               exit_status = 1\<rparr>)"
    by (simp add: lookup_main_def)
  with raised one show ?thesis by blast
qed

theorem no_match_lookup_witness:
  "validate_query [''lookup_agenda.py'', ''title'', ''Closing'', ''remarks''] = Inr ()
   \<and> snd (primary_match (fst (open_tables nested_store)) ''title'' (PStr ''Closing remarks''))
       = Inr []
   \<and> snd (lookup_main [''lookup_agenda.py'', ''title'', ''Closing'', ''remarks''] nested_store)
       = \<lparr>stdout = [''Error occured: No matches found for the given query.''], exit_status = 1\<rparr>"
proof -
  let ?args = "[''lookup_agenda.py'', ''title'', ''Closing'', ''remarks'']"
  let ?st = "fst (open_tables nested_store)"
  have valid: "validate_query ?args = Inr ()"
    by (simp add: validate_query_def QUERY_COLUMNS_def)
  have arg: "?args ! 1 = ''title''" "join '' '' (drop 2 ?args) = ''Closing remarks''"
    by simp_all
  have "title_matches ?st ''Closing remarks'' = []"
    by (simp add: title_matches_def open_tables_rows col_value_def row_view_def catalog_def
        sessions_info_def cell_def nested_store_def session_row_def strip_def isspace_def)
  then have empty: "snd (primary_match ?st ''title'' (PStr ''Closing remarks'')) = Inr []"
    by (simp add: primary_match_def select_by_title)
  obtain st1 where none: "primary_match ?st (?args ! 1) (PStr (join '' '' (drop 2 ?args)))
                            = (st1, Inr [])"
    using empty unfolding arg
    by (cases "primary_match ?st ''title'' (PStr ''Closing remarks'')") auto
  from no_match_lookup [OF valid none] valid empty show ?thesis by simp
qed

text \<open>
  C6. Both entry points catch the error and exit with status 1, but the line they print
  starts with \<^verbatim>\<open>Error occured: \<close>, spelt with one r. Evaluated for a lookup without
  arguments and for an import without a file argument.
\<close>

theorem catch_all_prints_occured:
  "snd (lookup_main [''lookup_agenda.py''] st)
     = \<lparr>stdout = [''Error occured: Expected 2 or more additional arguments with column and value''],
        exit_status = 1\<rparr>
   \<and> snd (import_main (env\<lparr>argv := [''import_agenda.py'']\<rparr>) st)
     = \<lparr>stdout = [''Error occured: Expected 1 additional argument with xls file path''],
        exit_status = 1\<rparr>
   \<and> take 16 ''Error occured: Expected 2 or more additional arguments with column and value''
       \<noteq> ''Error occurred: ''"
  by (simp add: lookup_main_def lookup_body_def validate_query_def LOOKUP_NOT_ENOUGH_ARGS_ERROR_def
      import_main_def import_body_def validate_path_def IMPORT_INCORRECT_ARG_AMOUNT_ERROR_def)

text \<open>
  C3. A Sub row imported before any Session row: the payload carries
  \<open>supersession_id = None\<close>, the statement quotes it as the text \<^verbatim>\<open>'None'\<close>, the insert
  succeeds, and the stored \<open>supersession_id\<close> is that text, not NULL.
\<close>

theorem sub_before_session_stores_text:
  "snd (process_session_data empty_store [agenda_row ''Sub'' ''Early'' PNone] sessions_table)
     = Inr [1]
   \<and> map (\<lambda>r. col_value ''sessions'' r ''supersession_id'')
        (table_rows (fst (process_session_data empty_store [agenda_row ''Sub'' ''Early'' PNone]
                            sessions_table)) ''sessions'')
     = [SText ''None'']
   \<and> statements (fst (process_session_data empty_store [agenda_row ''Sub'' ''Early'' PNone]
                        sessions_table))
     = [''INSERT INTO sessions (title, supersession_id) VALUES ('' @ [apos] @ ''Early'' @ [apos]
          @ '', '' @ [apos] @ ''None'' @ [apos] @ '')'']"
proof -
  let ?row = "agenda_row ''Sub'' ''Early'' PNone"
  have payload: "has_payload ?row"
    by (simp add: has_payload_def agenda_row_def)
  have data: "session_data_of ?row PNone = [(''title'', PStr ''Early''), (''supersession_id'', PNone)]"
    by (simp add: session_data_of_def agenda_row_def SESSIONS_COLUMNS_def notna_def)
  have n: "next_id empty_store ''sessions'' = 1"
    by (simp add: next_id_def empty_store_def max_rowid_def)
  have run: "process_session_data empty_store [?row] sessions_table
      = (after_insert empty_store (insert_text sessions_table (session_data_of ?row PNone))
           ''sessions'' (sessions_cells (session_data_of ?row PNone)), Inr [1])"
    by (simp add: process_session_data_def insert_session_row [OF payload] n)
  have stmt: "insert_text sessions_table [(''title'', PStr ''Early''), (''supersession_id'', PNone)]
      = ''INSERT INTO sessions (title, supersession_id) VALUES ('' @ [apos] @ ''Early'' @ [apos]
          @ '', '' @ [apos] @ ''None'' @ [apos] @ '')''"
    by (simp add: insert_text_def sessions_table_def quoted_def strip_def isspace_def)
  have cellv: "col_value ''sessions'' (1, sessions_cells [(''title'', PStr ''Early''), (''supersession_id'', PNone)])
                 ''supersession_id'' = SText ''None''"
    by (simp add: col_value_def row_view_def catalog_sessions sessions_info_fields
        sessions_cells_def cell_def int_cell_def int_of_text_def is_digit_def)
  show ?thesis
    unfolding run data
    using stmt cellv
    by (simp add: after_insert_def n logged_def empty_store_fields)
qed

text \<open>
  C5. The insert returns the new row id, and a UNIQUE violation raises; a FOREIGN KEY
  violation does not. Evaluated on the empty store: an association row for session 99 and
  speaker 99, neither of which exists, is inserted and stored; the same insert once more is
  refused as a duplicate of the primary key.
\<close>

theorem insert_ignores_foreign_keys:
  "snd (db_table_insert sessions_speakers_table empty_store
          [(''session_id'', PInt 99), (''speaker_id'', PInt 99)]) = Inr 1
   \<and> table_rows (fst (db_table_insert sessions_speakers_table empty_store
          [(''session_id'', PInt 99), (''speaker_id'', PInt 99)]))
       = (\<lambda>t. []) (''sessions_speakers'' := [(1, association_cells 99 99)])
   \<and> snd (db_table_insert sessions_speakers_table
            (fst (db_table_insert sessions_speakers_table empty_store
                    [(''session_id'', PInt 99), (''speaker_id'', PInt 99)]))
            [(''session_id'', PInt 99), (''speaker_id'', PInt 99)])
       = Inl (IntegrityError (''UNIQUE constraint failed: ''
                @ ''sessions_speakers.session_id, sessions_speakers.speaker_id''))"
proof -
  have once: "db_table_insert sessions_speakers_table empty_store
          [(''session_id'', PInt 99), (''speaker_id'', PInt 99)]
     = (after_association empty_store
          (insert_text sessions_speakers_table [(''session_id'', PInt 99), (''speaker_id'', PInt 99)])
          99 99, Inr 1)"
    by (simp add: insert_association empty_store_fields max_rowid_def)
  have stored: "table_rows (after_association empty_store q 99 99)
                = (\<lambda>t. []) (''sessions_speakers'' := [(1, association_cells 99 99)])" for q
    by (simp add: after_association_def empty_store_fields max_rowid_def fun_eq_iff)
  have dup: "keyed 99 99 (1, association_cells 99 99)"
    by (simp add: keyed_def col_value_def row_view_def catalog_sessions_speakers
        sessions_speakers_info_fields association_cells_def cell_def)
  show ?thesis
    unfolding once using stored dup
    by (simp add: insert_association unique_failed_def)
qed

text \<open>
  C2. In a successful import, a name that the speakers fields of two rows both contain,
  whatever whitespace surrounds it there, has exactly one row in the speakers table, and
  each of the two sessions has exactly one association row with that speaker's id. The two
  session ids differ. The name must not have been stored more than once before.
\<close>

theorem speakers_deduplicated:
  assumes ok: "process_speaker_data st rows sids speakers_table sessions_speakers_table
                 = (st', Inr ())"
    and len: "length rows \<le> length sids"
    and i: "i < length rows \<and> \<not> isna ((rows ! i) ''speakers'')
              \<and> n \<in> set (speaker_names_of (rows ! i))"
    and j: "j < length rows \<and> \<not> isna ((rows ! j) ''speakers'')
              \<and> n \<in> set (speaker_names_of (rows ! j))"
    and ij: "i \<noteq> j"
    and unique: "count_named n (table_rows st ''speakers'') \<le> 1"
  shows "\<exists>r. filter (named n) (table_rows st' ''speakers'') = [r]
           \<and> length (filter (keyed (sids ! i) (fst r)) (table_rows st' ''sessions_speakers'')) = 1
           \<and> length (filter (keyed (sids ! j) (fst r)) (table_rows st' ''sessions_speakers'')) = 1
           \<and> sids ! i \<noteq> sids ! j"
proof -
  let ?sd = "resolved_store st sids rows"
  let ?pairs = "pending sids 0 rows"
  let ?ps = "resolved (snd ?sd) ?pairs"
  let ?run = "association_rows (table_rows st ''sessions_speakers'') ?ps"
  obtain st2 where
    run: "process_speaker_data st rows sids speakers_table sessions_speakers_table =
            (st2, if snd ?run then Inr () else Inl pair_failed)"
    and tbl: "table_rows st2 = (table_rows (fst ?sd))(''sessions_speakers'' := fst ?run)"
    using process_speaker_data_run [OF len, of st] by blast
  from run ok have st2: "st2 = st'" and success: "snd ?run"
    by (auto split: if_splits)
  have speakers: "table_rows st' ''speakers'' = table_rows (fst ?sd) ''speakers''"
    and assoc: "table_rows st' ''sessions_speakers'' = fst ?run"
    using tbl st2 by simp_all
  have mem_i: "(sids ! i, n) \<in> set ?pairs" using pending_mem i by blast
  have mem_j: "(sids ! j, n) \<in> set ?pairs" using pending_mem j by blast
  have "n \<in> set (map snd ?pairs)" using mem_i by force
  then have "count_named n (table_rows (fst ?sd) ''speakers'')
               = max 1 (count_named n (table_rows st ''speakers''))"
    unfolding resolved_store_def by (simp add: fold_resolve_count)
  with unique have one: "count_named n (table_rows (fst ?sd) ''speakers'') = 1"
    by (simp add: max_def)
  obtain r rest where
    first: "filter (named n) (table_rows (fst ?sd) ''speakers'') = r # rest"
    and known: "map_of (snd ?sd) n = Some (PInt (fst r))"
    using resolved_lookup [OF mem_i, of st] by auto
  from first one have single: "filter (named n) (table_rows (fst ?sd) ''speakers'') = [r]"
    by (simp add: count_named_def)
  have int: "speaker_int (snd ?sd) n = fst r"
    using known by (simp add: speaker_int_def)
  have "(sids ! i, fst r) \<in> set ?ps" using resolved_mem [OF mem_i, of "snd ?sd"] int by simp
  then have count_i: "length (filter (keyed (sids ! i) (fst r)) (fst ?run)) = 1"
    by (rule association_once [OF success])
  have "(sids ! j, fst r) \<in> set ?ps" using resolved_mem [OF mem_j, of "snd ?sd"] int by simp
  then have count_j: "length (filter (keyed (sids ! j) (fst r)) (fst ?run)) = 1"
    by (rule association_once [OF success])
  have differ: "sids ! i \<noteq> sids ! j"
  proof
    assume same: "sids ! i = sids ! j"
    have "\<not> distinct ?pairs"
    proof (cases "i < j")
      case True
      then show ?thesis using pending_two_rows [of i j rows n sids] i j same by blast
    next
      case False
      with ij have "j < i" by simp
      then show ?thesis using pending_two_rows [of j i rows n sids] i j same by simp
    qed
    then have "\<not> distinct ?ps" by (rule resolved_not_distinct)
    then have "\<not> snd ?run" by (rule association_duplicate_fails)
    with success show False by simp
  qed
  show ?thesis
    using single count_i count_j differ speakers assoc by simp
qed

theorem speakers_deduplicated_witness:
  "snd (process_session_data empty_store ada_rows sessions_table) = Inr [1, 2]
   \<and> snd (process_speaker_data ada_sessions ada_rows [1, 2] speakers_table
            sessions_speakers_table) = Inr ()
   \<and> (\<exists>r. filter (named ''Ada Lovelace'') (table_rows ada_imported ''speakers'') = [r]
          \<and> length (filter (keyed 1 (fst r)) (table_rows ada_imported ''sessions_speakers'')) = 1
          \<and> length (filter (keyed 2 (fst r)) (table_rows ada_imported ''sessions_speakers'')) = 1)"
proof -
  have ids: "snd (process_session_data empty_store ada_rows sessions_table) = Inr [1, 2]"
    by code_simp
  have finished: "snd (process_speaker_data ada_sessions ada_rows [1, 2] speakers_table
                sessions_speakers_table) = Inr ()"
    by code_simp
  then have ok: "process_speaker_data ada_sessions ada_rows [1, 2] speakers_table
                   sessions_speakers_table = (ada_imported, Inr ())"
    by (simp add: ada_imported_def prod_eq_iff)
  have len: "length ada_rows \<le> length [1, 2 :: int]"
    by (simp add: ada_rows_def)
  have i: "0 < length ada_rows \<and> \<not> isna ((ada_rows ! 0) ''speakers'')
             \<and> ''Ada Lovelace'' \<in> set (speaker_names_of (ada_rows ! 0))"
    by code_simp
  have j: "1 < length ada_rows \<and> \<not> isna ((ada_rows ! 1) ''speakers'')
             \<and> ''Ada Lovelace'' \<in> set (speaker_names_of (ada_rows ! 1))"
    by code_simp
  have unique: "count_named ''Ada Lovelace'' (table_rows ada_sessions ''speakers'') \<le> 1"
    by code_simp
  have "(0::nat) \<noteq> 1" by simp
  from speakers_deduplicated [OF ok len i j this unique] ids finished
  show ?thesis by simp
qed

text \<open>
  C9. When the speakers field of some row lists a name twice, the same pair of session id
  and name is collected twice, and the import ends in the catch-all with the UNIQUE
  violation of the association table. What was inserted before stays: every session of the
  sheet, a speaker row for every name collected, and the association rows of all the pairs
  before the first one whose key is already stored. The association table is exactly the
  one that \<open>association_rows\<close> builds from the old rows and the keys of the collected
  pairs: a row for each key in turn, up to the first key already present.
\<close>

theorem duplicate_name_aborts:
  assumes valid: "validate_path env = Inr ()"
    and parsed: "read_excel env (argv env ! 1) ROWS_TO_SKIP EXCEL_COLUMNS = Inr rows"
    and payload: "\<forall>row\<in>set rows. has_payload row"
    and j: "j < length rows \<and> \<not> isna ((rows ! j) ''speakers'')"
    and dup: "\<not> distinct (speaker_names_of (rows ! j))"
  shows "\<exists>st' sids new.
           import_main env st =
             (st', \<lparr>stdout = [''Error occured: UNIQUE constraint failed: ''
                               @ ''sessions_speakers.session_id, sessions_speakers.speaker_id''],
                    exit_status = 1\<rparr>)
           \<and> sids = map fst (session_rows (next_id st ''sessions'') PNone rows)
           \<and> \<not> distinct (pending sids 0 rows)
           \<and> table_rows st' ''sessions''
               = table_rows st ''sessions'' @ session_rows (next_id st ''sessions'') PNone rows
           \<and> (\<forall>sn\<in>set (pending sids 0 rows). list_ex (named (snd sn)) (table_rows st' ''speakers''))
           \<and> table_rows st' ''sessions_speakers'' = table_rows st ''sessions_speakers'' @ new
           \<and> length new < length (pending sids 0 rows)
           \<and> (\<forall>m<length new. \<exists>r\<in>set (table_rows st' ''speakers'').
                  named (snd (pending sids 0 rows ! m)) r
                  \<and> keyed (fst (pending sids 0 rows ! m)) (fst r) (new ! m))
           \<and> table_rows st' ''sessions_speakers''
               = fst (association_rows (table_rows st ''sessions_speakers'')
                        (association_keys (table_rows st' ''speakers'') (pending sids 0 rows)))
           \<and> \<not> snd (association_rows (table_rows st ''sessions_speakers'')
                        (association_keys (table_rows st' ''speakers'') (pending sids 0 rows)))"
proof -
  let ?st1 = "fst (open_tables st)"
  let ?n = "next_id st ''sessions''"
  let ?sids = "map fst (session_rows ?n PNone rows)"
  have rows1: "table_rows ?st1 = table_rows st" by (rule open_tables_rows)
  have n1: "next_id ?st1 ''sessions'' = ?n"
    by (simp add: next_id_def open_tables_rows open_tables_sequence)
  obtain st2 where
    sessions: "process_session_data ?st1 rows sessions_table = (st2, Inr ?sids)"
    and rows2: "table_rows st2 = (table_rows st)(''sessions'' :=
                  table_rows st ''sessions'' @ session_rows ?n PNone rows)"
    using session_loop_run [OF payload, of ?st1 PNone "[]"] n1 rows1
    by (auto simp: process_session_data_def)
  let ?sd = "resolved_store st2 ?sids rows"
  let ?pairs = "pending ?sids 0 rows"
  let ?ps = "resolved (snd ?sd) ?pairs"
  let ?run = "association_rows (table_rows st2 ''sessions_speakers'') ?ps"
  have len: "length rows \<le> length ?sids" by simp
  obtain st3 where
    speakers: "process_speaker_data st2 rows ?sids speakers_table sessions_speakers_table =
            (st3, if snd ?run then Inr () else Inl pair_failed)"
    and rows3: "table_rows st3 = (table_rows (fst ?sd))(''sessions_speakers'' := fst ?run)"
    using process_speaker_data_run [OF len, of st2] by blast
  have twice: "\<not> distinct ?pairs"
  proof -
    have "\<not> distinct (map (Pair (?sids ! j)) (speaker_names_of (rows ! j)))"
      using dup by (simp add: distinct_map)
    then show ?thesis
      using j by (simp add: pending_row [of j rows ?sids] del: session_rows.simps)
  qed
  then have "\<not> distinct ?ps" by (rule resolved_not_distinct)
  then have failed: "\<not> snd ?run" by (rule association_duplicate_fails)
  obtain new where new: "fst ?run = table_rows st2 ''sessions_speakers'' @ new"
    "length new < length ?ps"
    "\<forall>m<length new. keyed (fst (?ps ! m)) (snd (?ps ! m)) (new ! m)"
    using association_prefix_keyed [of "table_rows st2 ''sessions_speakers''" ?ps] failed
    by blast
  have lenps: "length ?ps = length ?pairs" by (simp add: resolved_def)
  obtain st1 where opened: "open_tables st
        = (st1, Inr (sessions_table, speakers_table, sessions_speakers_table))"
    and st1: "st1 = fst (open_tables st)"
    using open_tables_eq [of st] by blast
  have body: "import_body env st = (st3, Inl pair_failed)"
    using valid parsed sessions [folded st1] speakers failed opened
    by (simp add: import_body_def)
  have main: "import_main env st =
      (st3, \<lparr>stdout = [''Error occured: UNIQUE constraint failed: ''
                        @ ''sessions_speakers.session_id, sessions_speakers.speaker_id''],
             exit_status = 1\<rparr>)"
    using body by (simp add: import_main_def pair_failed_def unique_failed_def)
  have sess3: "table_rows st3 ''sessions''
                 = table_rows st ''sessions'' @ session_rows ?n PNone rows"
    using rows3 rows2 fold_resolve_frame [of "''sessions''" "map snd ?pairs" st2 "[]"]
    by (simp add: resolved_store_def)
  have spk3: "table_rows st3 ''speakers'' = table_rows (fst ?sd) ''speakers''"
    using rows3 by simp
  have all_named: "\<forall>sn\<in>set ?pairs. list_ex (named (snd sn)) (table_rows st3 ''speakers'')"
  proof
    fix sn assume "sn \<in> set ?pairs"
    from resolved_lookup [OF this, of st2] obtain r rest where
      "filter (named (snd sn)) (table_rows (fst ?sd) ''speakers'') = r # rest" by blast
    then have "r \<in> set (filter (named (snd sn)) (table_rows (fst ?sd) ''speakers''))" by simp
    then show "list_ex (named (snd sn)) (table_rows st3 ''speakers'')"
      unfolding spk3 by (auto simp: list_ex_iff)
  qed
  have assoc3: "table_rows st3 ''sessions_speakers'' = table_rows st ''sessions_speakers'' @ new"
    using rows3 new(1) rows2 by simp
  have linked: "\<forall>m<length new. \<exists>r\<in>set (table_rows st3 ''speakers'').
                  named (snd (?pairs ! m)) r \<and> keyed (fst (?pairs ! m)) (fst r) (new ! m)"
  proof (intro allI impI)
    fix m assume m: "m < length new"
    with new(2) lenps have mp: "m < length ?pairs" by simp
    then have "?pairs ! m \<in> set ?pairs" by simp
    from resolved_lookup [OF this, of st2] obtain r rest where
      r: "filter (named (snd (?pairs ! m))) (table_rows (fst ?sd) ''speakers'') = r # rest"
      and known: "map_of (snd ?sd) (snd (?pairs ! m)) = Some (PInt (fst r))" by blast
    from r have "r \<in> set (filter (named (snd (?pairs ! m))) (table_rows (fst ?sd) ''speakers''))"
      by simp
    then have mem: "r \<in> set (table_rows st3 ''speakers'')" and nm: "named (snd (?pairs ! m)) r"
      unfolding spk3 by auto
    have "?ps ! m = (fst (?pairs ! m), fst r)"
      using mp known by (simp add: resolved_def speaker_int_def)
    with new(3) m have "keyed (fst (?pairs ! m)) (fst r) (new ! m)" by fastforce
    with mem nm show "\<exists>r\<in>set (table_rows st3 ''speakers'').
                  named (snd (?pairs ! m)) r \<and> keyed (fst (?pairs ! m)) (fst r) (new ! m)"
      by blast
  qed
  have keys: "?ps = association_keys (table_rows st3 ''speakers'') ?pairs"
    unfolding resolved_def association_keys_def
  proof (rule map_cong [OF refl])
    fix sn assume "sn \<in> set ?pairs"
    from resolved_lookup [OF this, of st2] obtain r rest where
      r: "filter (named (snd sn)) (table_rows (fst ?sd) ''speakers'') = r # rest"
      and known: "map_of (snd ?sd) (snd sn) = Some (PInt (fst r))" by blast
    have "speaker_int (snd ?sd) (snd sn) = fst r"
      using known by (simp add: speaker_int_def)
    moreover have "speaker_key (table_rows st3 ''speakers'') (snd sn) = fst r"
      unfolding spk3 speaker_key_def r by simp
    ultimately show "(fst sn, speaker_int (snd ?sd) (snd sn))
                       = (fst sn, speaker_key (table_rows st3 ''speakers'') (snd sn))"
      by simp
  qed
  have old: "table_rows st2 ''sessions_speakers'' = table_rows st ''sessions_speakers''"
    using rows2 by simp
  have exact: "table_rows st3 ''sessions_speakers''
      = fst (association_rows (table_rows st ''sessions_speakers'')
               (association_keys (table_rows st3 ''speakers'') ?pairs))"
  proof -
    have "table_rows st3 ''sessions_speakers'' = fst ?run" using rows3 by simp
    then show ?thesis unfolding old keys .
  qed
  have stopped: "\<not> snd (association_rows (table_rows st ''sessions_speakers'')
               (association_keys (table_rows st3 ''speakers'') ?pairs))"
    using failed unfolding old keys .
  have shape: "table_rows st3 ''sessions''
                 = table_rows st ''sessions'' @ session_rows ?n PNone rows
      \<and> (\<forall>sn\<in>set ?pairs. list_ex (named (snd sn)) (table_rows st3 ''speakers''))
      \<and> table_rows st3 ''sessions_speakers'' = table_rows st ''sessions_speakers'' @ new
      \<and> length new < length ?pairs
      \<and> (\<forall>m<length new. \<exists>r\<in>set (table_rows st3 ''speakers'').
                  named (snd (?pairs ! m)) r \<and> keyed (fst (?pairs ! m)) (fst r) (new ! m))"
    using sess3 all_named assoc3 new(2) lenps linked by simp
  show ?thesis
    using main twice shape exact stopped
    by (intro exI [of _ st3] exI [of _ ?sids] exI [of _ new]) blast
qed

theorem duplicate_name_aborts_witness:
  "snd (import_main panel_environment empty_store)
     = \<lparr>stdout = [''Error occured: UNIQUE constraint failed: ''
                    @ ''sessions_speakers.session_id, sessions_speakers.speaker_id''],
        exit_status = 1\<rparr>
   \<and> map fst (table_rows (fst (import_main panel_environment empty_store)) ''sessions'') = [1, 2]
   \<and> table_rows (fst (import_main panel_environment empty_store)) ''speakers''
       = [(1, speaker_cells ''Grace Hopper''), (2, speaker_cells ''A'')]
   \<and> table_rows (fst (import_main panel_environment empty_store)) ''sessions_speakers''
       = [(1, association_cells 1 1), (2, association_cells 2 2)]"
proof -
  let ?rows = "[agenda_row ''Session'' ''Opening'' (PStr ''Grace Hopper''),
                agenda_row ''Session'' ''Panel'' (PStr ''A; A'')]"
  have valid: "validate_path panel_environment = Inr ()"
    by (simp add: validate_path_def panel_environment_def)
  have parsed: "read_excel panel_environment (argv panel_environment ! 1) ROWS_TO_SKIP
                  EXCEL_COLUMNS = Inr ?rows"
    by (simp add: panel_environment_def)
  have payload: "\<forall>row\<in>set ?rows. has_payload row"
    by (simp add: has_payload_def agenda_row_def SESSIONS_COLUMNS_def notna_def)
  have j: "1 < length ?rows \<and> \<not> isna ((?rows ! 1) ''speakers'')"
    by (simp add: agenda_row_def)
  have dup: "\<not> distinct (speaker_names_of (?rows ! 1))"
    by code_simp
  from duplicate_name_aborts [OF valid parsed payload j dup, of empty_store]
  have out: "snd (import_main panel_environment empty_store)
     = \<lparr>stdout = [''Error occured: UNIQUE constraint failed: ''
                    @ ''sessions_speakers.session_id, sessions_speakers.speaker_id''],
        exit_status = 1\<rparr>"
    by auto
  have a: "map fst (table_rows (fst (import_main panel_environment empty_store)) ''sessions'') = [1, 2]"
    by code_simp
  have b: "table_rows (fst (import_main panel_environment empty_store)) ''speakers''
       = [(1, speaker_cells ''Grace Hopper''), (2, speaker_cells ''A'')]"
    by code_simp
  have c: "table_rows (fst (import_main panel_environment empty_store)) ''sessions_speakers''
       = [(1, association_cells 1 1), (2, association_cells 2 2)]"
    by code_simp
  from out a b c show ?thesis by simp
qed

end
